theory Spec2Isabelle
  imports Complex_Main
begin

section \<open>Python strings\<close>

text \<open>
  A Python \<open>str\<close> is a sequence of code points. It is modelled as a \<open>string\<close>, each
  \<open>char\<close> standing for the code point of the same number, so the model covers the
  strings whose code points are below 256. The operations below are the \<open>str\<close>
  methods the program calls, restricted to the argument shapes it uses.
\<close>

text \<open>
  \<open>str.isspace\<close> on one character: the code points below 256 that Python counts as
  whitespace are TAB, LF, VT, FF, CR, FS, GS, RS, US, SPACE, NEL and NBSP.
\<close>

definition isspace :: "char \<Rightarrow> bool" where
  "isspace c \<longleftrightarrow>
     c \<in> set [CHR 0x09, CHR 0x0A, CHR 0x0B, CHR 0x0C, CHR 0x0D, CHR 0x1C, CHR 0x1D,
              CHR 0x1E, CHR 0x1F, CHR 0x20, CHR 0x85, CHR 0xA0]"

text \<open>\<open>s.lstrip()\<close>, \<open>s.rstrip()\<close> and \<open>s.strip()\<close> with no argument.\<close>

definition lstrip :: "string \<Rightarrow> string" where
  "lstrip s = dropWhile isspace s"

definition rstrip :: "string \<Rightarrow> string" where
  "rstrip s = rev (dropWhile isspace (rev s))"

definition strip :: "string \<Rightarrow> string" where
  "strip s = rstrip (lstrip s)"

text \<open>\<open>s.startswith(p)\<close>.\<close>

definition startswith :: "string \<Rightarrow> string \<Rightarrow> bool" where
  "startswith s p \<longleftrightarrow> take (length p) s = p"

text \<open>
  \<open>s.split()\<close> with no argument: the maximal runs of non-whitespace characters, in
  order. \<open>split_from cur s\<close> scans \<open>s\<close> with the token read so far in \<open>cur\<close>.
\<close>

fun split_from :: "string \<Rightarrow> string \<Rightarrow> string list" where
  "split_from cur [] = (if cur = [] then [] else [cur])"
| "split_from cur (c # cs) =
     (if isspace c then (if cur = [] then split_from [] cs else cur # split_from [] cs)
      else split_from (cur @ [c]) cs)"

definition split_ws :: "string \<Rightarrow> string list" where
  "split_ws s = split_from [] s"

text \<open>
  \<open>s.split(sep)\<close> for a separator of one character: the pieces between the
  separators, empty pieces included; the result is never the empty list.
\<close>

fun split_on :: "char \<Rightarrow> string \<Rightarrow> string list" where
  "split_on sep [] = [[]]"
| "split_on sep (c # cs) =
     (if c = sep then [] # split_on sep cs
      else (case split_on sep cs of
              [] \<Rightarrow> [[c]]
            | piece # pieces \<Rightarrow> (c # piece) # pieces))"

text \<open>\<open>s.split(sep, 1)\<close> for a separator of one character: at most one cut, at the first separator.\<close>

definition split_once :: "char \<Rightarrow> string \<Rightarrow> string list" where
  "split_once sep s =
     (if sep \<in> set s then [takeWhile (\<lambda>c. c \<noteq> sep) s, tl (dropWhile (\<lambda>c. c \<noteq> sep) s)]
      else [s])"

text \<open>\<open>sep.join(xs)\<close>.\<close>

fun join :: "string \<Rightarrow> string list \<Rightarrow> string" where
  "join sep [] = []"
| "join sep [x] = x"
| "join sep (x # y # ys) = x @ sep @ join sep (y # ys)"

text \<open>\<open>s.replace(old, new)\<close> for an \<open>old\<close> of one character.\<close>

definition replace :: "char \<Rightarrow> string \<Rightarrow> string \<Rightarrow> string" where
  "replace old new s = concat (map (\<lambda>c. if c = old then new else [c]) s)"

text \<open>
  \<open>s.lower()\<close>: below code point 256 the cased upper letters are A to Z and the
  Latin-1 capitals 0xC0 to 0xDE without the multiplication sign 0xD7; each is moved up
  by 32.
\<close>

definition lower_char :: "char \<Rightarrow> char" where
  "lower_char c =
     (let n = (of_char c :: nat)
      in if (65 \<le> n \<and> n \<le> 90) \<or> (192 \<le> n \<and> n \<le> 222 \<and> n \<noteq> 215) then char_of (n + 32) else c)"

definition lower :: "string \<Rightarrow> string" where
  "lower s = map lower_char s"

text \<open>
  The slice \<open>s[:k]\<close>: a negative \<open>k\<close> counts from the end, and the bounds are
  clipped to the string.
\<close>

definition slice_to :: "int \<Rightarrow> 'a list \<Rightarrow> 'a list" where
  "slice_to k xs = (if 0 \<le> k then take (nat k) xs else take (length xs - nat (- k)) xs)"

text \<open>\<open>str(n)\<close> for an integer: its decimal digits, with a minus sign when negative.\<close>

definition digit_char :: "nat \<Rightarrow> char" where
  "digit_char d = ''0123456789'' ! d"

fun str_nat :: "nat \<Rightarrow> string" where
  "str_nat n = (if n < 10 then [digit_char n] else str_nat (n div 10) @ [digit_char (n mod 10)])"

declare str_nat.simps [simp del]

definition str_int :: "int \<Rightarrow> string" where
  "str_int i = (if i < 0 then CHR ''-'' # str_nat (nat (- i)) else str_nat (nat i))"

section \<open>Exceptions and conversions\<close>

text \<open>
  The exceptions the modelled code can raise. \<open>ValueError\<close> and \<open>Exception\<close> carry
  the message where the program writes one; the messages of errors raised by the Python
  library itself are left empty. \<open>Unsupported\<close> marks the parts of \<open>str.format\<close>
  that the model does not cover; no template of the program reaches it.
\<close>

datatype py_error =
    ValueError string
  | KeyError string
  | IndexError
  | ZeroDivisionError
  | Exception string
  | Unsupported

definition isdigit :: "char \<Rightarrow> bool" where
  "isdigit c \<longleftrightarrow> c \<in> set ''0123456789''"

definition digit_value :: "char \<Rightarrow> int" where
  "digit_value c = int (of_char c) - 48"

text \<open>
  The digits of an integer literal, as \<open>int(s)\<close> reads them in base 10: decimal digits,
  with single underscores allowed between two digits. \<open>prev\<close> tells whether the
  character just read was a digit.
\<close>

fun digits_value :: "int \<Rightarrow> bool \<Rightarrow> string \<Rightarrow> int option" where
  "digits_value acc prev [] = (if prev then Some acc else None)"
| "digits_value acc prev (c # cs) =
     (if isdigit c then digits_value (acc * 10 + digit_value c) True cs
      else if c = CHR ''_'' \<and> prev then digits_value acc False cs
      else None)"

text \<open>
  \<open>int(s)\<close> for a string: surrounding whitespace is dropped, one sign is allowed, and
  the rest must be digits as above. The whitespace \<open>int\<close> drops is TAB, LF, VT, FF, CR,
  SPACE, NEL and NBSP; the separators FS, GS, RS and US, which \<open>str.strip\<close> drops, are
  not among them (\<open>int('1\x1c')\<close> raises). A literal of more than 4300 digits is
  refused too (the default of \<open>sys.set_int_max_str_digits\<close>). Every failure is a
  \<open>ValueError\<close>.
\<close>

definition int_space :: "char \<Rightarrow> bool" where
  "int_space c \<longleftrightarrow>
     c \<in> set [CHR 0x09, CHR 0x0A, CHR 0x0B, CHR 0x0C, CHR 0x0D, CHR 0x20, CHR 0x85, CHR 0xA0]"

definition py_int :: "string \<Rightarrow> py_error + int" where
  "py_int s =
     (let t = rev (dropWhile int_space (rev (dropWhile int_space s)));
          sign = (if take 1 t = ''-'' then - 1 else 1);
          body = (if take 1 t = ''-'' \<or> take 1 t = ''+'' then drop 1 t else t)
      in if length (filter isdigit body) > 4300 then Inl (ValueError [])
         else (case digits_value 0 False body of
                 None \<Rightarrow> Inl (ValueError [])
               | Some n \<Rightarrow> Inr (sign * n)))"

text \<open>
  Floating-point numbers are modelled by the rationals they denote, and every float
  operation by the exact operation followed by a rounding \<open>rnd\<close>, which is a parameter of
  each function that computes with floats. What is used of the rounding is that it is
  monotone and leaves the integers up to \<open>2 ^ 53\<close> as they are, both of which hold of
  IEEE 754 double precision with any of its rounding modes. Overflow to infinity is not
  modelled; the word counts and time differences at hand stay far below it.
\<close>

definition float_rounding :: "(rat \<Rightarrow> rat) \<Rightarrow> bool" where
  "float_rounding rnd \<longleftrightarrow>
     (\<forall>x y. x \<le> y \<longrightarrow> rnd x \<le> rnd y) \<and>
     (\<forall>n::int. \<bar>n\<bar> \<le> 2 ^ 53 \<longrightarrow> rnd (of_int n) = of_int n)"

text \<open>\<open>int(x)\<close> for a float: truncation towards zero.\<close>

definition int_of_float :: "rat \<Rightarrow> int" where
  "int_of_float x = (if 0 \<le> x then \<lfloor>x\<rfloor> else \<lceil>x\<rceil>)"

section \<open>Dictionaries and \<open>str.format\<close>\<close>

text \<open>
  The template tables are dictionaries with string keys, modelled as association
  lists. \<open>k in d\<close> is \<open>contains\<close>, and \<open>d[k]\<close> is \<open>getitem\<close>, which raises
  \<open>KeyError\<close> for a missing key.
\<close>

definition contains :: "(string \<times> 'v) list \<Rightarrow> string \<Rightarrow> bool" where
  "contains d k \<longleftrightarrow> k \<in> fst ` set d"

definition getitem :: "(string \<times> 'v) list \<Rightarrow> string \<Rightarrow> py_error + 'v" where
  "getitem d k = (case map_of d k of None \<Rightarrow> Inl (KeyError k) | Some v \<Rightarrow> Inr v)"

text \<open>
  \<open>template.format(**kwargs)\<close> for string arguments. The template is read from left to
  right: \<open>{{\<close> and \<open>}}\<close> stand for one brace, \<open>{name}\<close> is replaced by the argument
  of that name, and the replacement text is not read again. A brace that is neither
  doubled nor part of a field is a \<open>ValueError\<close>, an unknown name a \<open>KeyError\<close>, and
  an empty or numeric name asks for a positional argument, of which there is none
  (\<open>IndexError\<close>). Fields with a conversion, a format specification or an attribute or
  index lookup are not modelled (\<open>Unsupported\<close>).
\<close>

fun emit :: "string \<Rightarrow> py_error + string \<Rightarrow> py_error + string" where
  "emit s (Inr r) = Inr (s @ r)"
| "emit s (Inl e) = Inl e"

definition get_field :: "(string \<times> string) list \<Rightarrow> string \<Rightarrow> py_error + string" where
  "get_field kwargs name =
     (if \<exists>c\<in>set name. c \<in> set ''.[!:{'' then Inl Unsupported
      else if \<forall>c\<in>set name. isdigit c then Inl IndexError
      else getitem kwargs name)"

fun format_from :: "(string \<times> string) list \<Rightarrow> string option \<Rightarrow> string \<Rightarrow> py_error + string" where
  "format_from kwargs None [] = Inr []"
| "format_from kwargs (Some name) [] = Inl (ValueError [])"
| "format_from kwargs None (c # cs) =
     (if c = CHR ''{'' then
        (case cs of
           [] \<Rightarrow> Inl (ValueError [])
         | d # ds \<Rightarrow>
             if d = CHR ''{'' then emit ''{'' (format_from kwargs None ds)
             else format_from kwargs (Some []) cs)
      else if c = CHR ''}'' then
        (case cs of
           [] \<Rightarrow> Inl (ValueError [])
         | d # ds \<Rightarrow>
             if d = CHR ''}'' then emit ''}'' (format_from kwargs None ds)
             else Inl (ValueError []))
      else emit [c] (format_from kwargs None cs))"
| "format_from kwargs (Some name) (c # cs) =
     (if c = CHR ''}'' then
        (case get_field kwargs name of
           Inl e \<Rightarrow> Inl e
         | Inr v \<Rightarrow> emit v (format_from kwargs None cs))
      else format_from kwargs (Some (name @ [c])) cs)"

definition format :: "string \<Rightarrow> (string \<times> string) list \<Rightarrow> py_error + string" where
  "format template kwargs = format_from kwargs None template"

section \<open>Prompt templates (prompts.py)\<close>

definition SYSTEM_PROMPT :: string where
  "SYSTEM_PROMPT =
     ''You are an expert LinkedIn content creator with years of experience in crafting \<newline>'' @
     ''engaging, professional posts that drive high engagement. You understand LinkedIn's algorithm, \<newline>'' @
     ''best practices for professional networking, and how to write compelling content that resonates \<newline>'' @
     ''with professionals across various industries.''"

definition POST_GENERATION_PROMPTS :: "(string \<times> string) list" where
  "POST_GENERATION_PROMPTS =
    [(''professional'',
      ''Create a professional LinkedIn post about: {topic}\<newline>'' @
      ''\<newline>'' @
      ''Requirements:\<newline>'' @
      ''- Length: {length} (Short: 2-4 lines, Medium: 5-8 lines, Long: 10-15 lines)\<newline>'' @
      ''- Tone: Professional, authoritative, and insightful\<newline>'' @
      ''- Include relevant industry terminology\<newline>'' @
      ''- Start with a strong hook\<newline>'' @
      ''- End with a thought-provoking question or call-to-action\<newline>'' @
      ''- Use line breaks for readability\<newline>'' @
      ''- NO hashtags in the main text\<newline>'' @
      ''\<newline>'' @
      ''Write the post now:''),
     (''casual'',
      ''Create a casual but professional LinkedIn post about: {topic}\<newline>'' @
      ''\<newline>'' @
      ''Requirements:\<newline>'' @
      ''- Length: {length} (Short: 2-4 lines, Medium: 5-8 lines, Long: 10-15 lines)\<newline>'' @
      ''- Tone: Friendly, conversational, relatable\<newline>'' @
      ''- Use simple language and personal anecdotes\<newline>'' @
      ''- Start with a relatable hook\<newline>'' @
      ''- Add 1-2 relevant emojis (use sparingly)\<newline>'' @
      ''- End with an engaging question\<newline>'' @
      ''- Use line breaks for readability\<newline>'' @
      ''- NO hashtags in the main text\<newline>'' @
      ''\<newline>'' @
      ''Write the post now:''),
     (''motivational'',
      ''Create an inspiring, motivational LinkedIn post about: {topic}\<newline>'' @
      ''\<newline>'' @
      ''Requirements:\<newline>'' @
      ''- Length: {length} (Short: 2-4 lines, Medium: 5-8 lines, Long: 10-15 lines)\<newline>'' @
      ''- Tone: Uplifting, inspiring, encouraging\<newline>'' @
      ''- Include a powerful message or lesson\<newline>'' @
      ''- Use storytelling elements\<newline>'' @
      ''- Start with an attention-grabbing statement\<newline>'' @
      ''- End with an inspiring call-to-action\<newline>'' @
      ''- Use line breaks for readability\<newline>'' @
      ''- Add 1-2 relevant emojis\<newline>'' @
      ''- NO hashtags in the main text\<newline>'' @
      ''\<newline>'' @
      ''Write the post now:''),
     (''educational'',
      ''Create an educational LinkedIn post about: {topic}\<newline>'' @
      ''\<newline>'' @
      ''Requirements:\<newline>'' @
      ''- Length: {length} (Short: 2-4 lines, Medium: 5-8 lines, Long: 10-15 lines)\<newline>'' @
      ''- Tone: Informative, authoritative, helpful\<newline>'' @
      ''- Share valuable insights or knowledge\<newline>'' @
      ''- Use bullet points or numbered lists if appropriate\<newline>'' @
      ''- Include actionable tips or key takeaways\<newline>'' @
      ''- Start with a value proposition\<newline>'' @
      ''- End with an invitation to discuss or share\<newline>'' @
      ''- Use line breaks for readability\<newline>'' @
      ''- NO hashtags in the main text\<newline>'' @
      ''\<newline>'' @
      ''Write the post now:''),
     (''storytelling'',
      ''Create a compelling story-based LinkedIn post about: {topic}\<newline>'' @
      ''\<newline>'' @
      ''Requirements:\<newline>'' @
      ''- Length: {length} (Short: 2-4 lines, Medium: 5-8 lines, Long: 10-15 lines)\<newline>'' @
      ''- Tone: Narrative, engaging, personal\<newline>'' @
      ''- Follow a story arc (beginning, middle, end)\<newline>'' @
      ''- Include specific details and emotions\<newline>'' @
      ''- Make it relatable and authentic\<newline>'' @
      ''- Start with a hook that draws readers in\<newline>'' @
      ''- End with a lesson or reflection\<newline>'' @
      ''- Use line breaks for readability\<newline>'' @
      ''- Add 1-2 relevant emojis\<newline>'' @
      ''- NO hashtags in the main text\<newline>'' @
      ''\<newline>'' @
      ''Write the post now:''),
     (''thought-leadership'',
      ''Create a thought-leadership LinkedIn post about: {topic}\<newline>'' @
      ''\<newline>'' @
      ''Requirements:\<newline>'' @
      ''- Length: {length} (Short: 2-4 lines, Medium: 5-8 lines, Long: 10-15 lines)\<newline>'' @
      ''- Tone: Authoritative, visionary, intellectually stimulating\<newline>'' @
      ''- Share unique insights or perspectives\<newline>'' @
      ''- Challenge conventional thinking\<newline>'' @
      ''- Use data or trends if relevant\<newline>'' @
      ''- Start with a bold statement or question\<newline>'' @
      ''- End with a forward-looking perspective\<newline>'' @
      ''- Use line breaks for readability\<newline>'' @
      ''- NO hashtags in the main text\<newline>'' @
      ''\<newline>'' @
      ''Write the post now:'')]"

definition HASHTAG_PROMPT :: string where
  "HASHTAG_PROMPT =
     ''Generate 8-10 relevant and trending LinkedIn hashtags for this post topic: {topic}\<newline>'' @
     ''\<newline>'' @
     ''Requirements:\<newline>'' @
     ''- Mix of popular hashtags (100k+ followers) and niche hashtags (10k-50k followers)\<newline>'' @
     ''- Relevant to the topic and professional context\<newline>'' @
     ''- Include industry-specific hashtags\<newline>'' @
     ''- Format: Return ONLY the hashtags separated by spaces, starting with #\<newline>'' @
     ''- Example format: #Marketing #DigitalMarketing #ContentStrategy\<newline>'' @
     ''\<newline>'' @
     ''Generate hashtags now:''"

definition HOOK_GENERATION_PROMPT :: string where
  "HOOK_GENERATION_PROMPT =
     ''Generate 3 attention-grabbing opening hooks for a LinkedIn post about: {topic}\<newline>'' @
     ''\<newline>'' @
     ''Each hook should be:\<newline>'' @
     ''- Maximum 1-2 lines\<newline>'' @
     ''- Immediately engaging\<newline>'' @
     ''- Use one of these techniques: question, bold statement, surprising fact, or personal confession\<newline>'' @
     ''- Professional yet captivating\<newline>'' @
     ''\<newline>'' @
     ''Format:\<newline>'' @
     ''Hook 1: [first hook]\<newline>'' @
     ''Hook 2: [second hook]\<newline>'' @
     ''Hook 3: [third hook]\<newline>'' @
     ''\<newline>'' @
     ''Generate hooks now:''"

definition REFINEMENT_PROMPTS :: "(string \<times> string) list" where
  "REFINEMENT_PROMPTS =
    [(''make_shorter'',
      ''Rewrite this LinkedIn post to be shorter while keeping the core message:\<newline>'' @
      ''\<newline>'' @
      ''Original post:\<newline>'' @
      ''{post}\<newline>'' @
      ''\<newline>'' @
      ''Requirements:\<newline>'' @
      ''- Cut length by 30-40%\<newline>'' @
      ''- Keep the main message and impact\<newline>'' @
      ''- Maintain readability\<newline>'' @
      ''- NO hashtags\<newline>'' @
      ''\<newline>'' @
      ''Shortened post:''),
     (''make_longer'',
      ''Expand this LinkedIn post with more details and depth:\<newline>'' @
      ''\<newline>'' @
      ''Original post:\<newline>'' @
      ''{post}\<newline>'' @
      ''\<newline>'' @
      ''Requirements:\<newline>'' @
      ''- Add relevant details, examples, or insights\<newline>'' @
      ''- Increase length by 40-50%\<newline>'' @
      ''- Maintain flow and engagement\<newline>'' @
      ''- NO hashtags\<newline>'' @
      ''\<newline>'' @
      ''Expanded post:''),
     (''add_storytelling'',
      ''Rewrite this LinkedIn post using storytelling elements:\<newline>'' @
      ''\<newline>'' @
      ''Original post:\<newline>'' @
      ''{post}\<newline>'' @
      ''\<newline>'' @
      ''Requirements:\<newline>'' @
      ''- Add narrative structure\<newline>'' @
      ''- Include personal or relatable elements\<newline>'' @
      ''- Make it more engaging\<newline>'' @
      ''- Maintain the core message\<newline>'' @
      ''- NO hashtags\<newline>'' @
      ''\<newline>'' @
      ''Rewritten post:''),
     (''more_professional'',
      ''Make this LinkedIn post more professional and polished:\<newline>'' @
      ''\<newline>'' @
      ''Original post:\<newline>'' @
      ''{post}\<newline>'' @
      ''\<newline>'' @
      ''Requirements:\<newline>'' @
      ''- Elevate the language\<newline>'' @
      ''- Add industry credibility\<newline>'' @
      ''- Remove overly casual elements\<newline>'' @
      ''- Maintain authenticity\<newline>'' @
      ''- NO hashtags\<newline>'' @
      ''\<newline>'' @
      ''Professional version:''),
     (''add_cta'',
      ''Add a compelling call-to-action to this LinkedIn post:\<newline>'' @
      ''\<newline>'' @
      ''Original post:\<newline>'' @
      ''{post}\<newline>'' @
      ''\<newline>'' @
      ''Requirements:\<newline>'' @
      ''- Add an engaging CTA at the end\<newline>'' @
      ''- Encourage comments, shares, or discussion\<newline>'' @
      ''- Make it feel natural\<newline>'' @
      ''- NO hashtags\<newline>'' @
      ''\<newline>'' @
      ''Post with CTA:'')]"

definition POST_TYPE_PROMPTS :: "(string \<times> string) list" where
  "POST_TYPE_PROMPTS =
    [(''announcement'',
      ''Create a LinkedIn announcement post about: {topic}\<newline>'' @
      ''\<newline>'' @
      ''This should announce news, updates, or achievements in a professional and exciting way.\<newline>'' @
      ''Length: {length}\<newline>'' @
      ''Tone: {tone}\<newline>'' @
      ''\<newline>'' @
      ''Include:\<newline>'' @
      ''- Clear announcement\<newline>'' @
      ''- Key details\<newline>'' @
      ''- Why it matters\<newline>'' @
      ''- Call to action\<newline>'' @
      ''\<newline>'' @
      ''NO hashtags in the main text.\<newline>'' @
      ''Write the post:''),
     (''tips'',
      ''Create a LinkedIn tips/advice post about: {topic}\<newline>'' @
      ''\<newline>'' @
      ''Share actionable tips or best practices.\<newline>'' @
      ''Length: {length}\<newline>'' @
      ''Tone: {tone}\<newline>'' @
      ''\<newline>'' @
      ''Format as:\<newline>'' @
      ''- Introduction\<newline>'' @
      ''- 3-5 numbered tips\<newline>'' @
      ''- Quick summary\<newline>'' @
      ''- Engagement question\<newline>'' @
      ''\<newline>'' @
      ''NO hashtags in the main text.\<newline>'' @
      ''Write the post:''),
     (''question'',
      ''Create a LinkedIn discussion post with a thought-provoking question about: {topic}\<newline>'' @
      ''\<newline>'' @
      ''Length: {length}\<newline>'' @
      ''Tone: {tone}\<newline>'' @
      ''\<newline>'' @
      ''Include:\<newline>'' @
      ''- Brief context (2-3 lines)\<newline>'' @
      ''- Main question that sparks discussion\<newline>'' @
      ''- Why this matters\<newline>'' @
      ''- Invitation to share thoughts\<newline>'' @
      ''\<newline>'' @
      ''NO hashtags in the main text.\<newline>'' @
      ''Write the post:''),
     (''achievement'',
      ''Create a LinkedIn post celebrating an achievement related to: {topic}\<newline>'' @
      ''\<newline>'' @
      ''Length: {length}\<newline>'' @
      ''Tone: {tone}\<newline>'' @
      ''\<newline>'' @
      ''Include:\<newline>'' @
      ''- The achievement\<newline>'' @
      ''- Brief journey/context\<newline>'' @
      ''- Gratitude or lesson learned\<newline>'' @
      ''- Humble brag done right\<newline>'' @
      ''\<newline>'' @
      ''NO hashtags in the main text.\<newline>'' @
      ''Write the post:''),
     (''industry_insight'',
      ''Create a LinkedIn post sharing industry insights about: {topic}\<newline>'' @
      ''\<newline>'' @
      ''Length: {length}\<newline>'' @
      ''Tone: {tone}\<newline>'' @
      ''\<newline>'' @
      ''Include:\<newline>'' @
      ''- Current trend or observation\<newline>'' @
      ''- Your analysis or perspective\<newline>'' @
      ''- What it means for professionals\<newline>'' @
      ''- Engaging question\<newline>'' @
      ''\<newline>'' @
      ''NO hashtags in the main text.\<newline>'' @
      ''Write the post:'')]"

definition ENGAGEMENT_SCORE_PROMPT :: string where
  "ENGAGEMENT_SCORE_PROMPT =
     ''Analyze this LinkedIn post and provide an engagement prediction score:\<newline>'' @
     ''\<newline>'' @
     ''Post:\<newline>'' @
     ''{post}\<newline>'' @
     ''\<newline>'' @
     ''Evaluate based on:\<newline>'' @
     ''1. Hook quality (0-25 points): Is the opening line attention-grabbing?\<newline>'' @
     ''2. Content value (0-25 points): Does it provide value, insights, or entertainment?\<newline>'' @
     ''3. Readability (0-20 points): Line breaks, length, structure\<newline>'' @
     ''4. Call-to-action (0-15 points): Does it encourage engagement?\<newline>'' @
     ''5. Authenticity (0-15 points): Does it feel genuine and relatable?\<newline>'' @
     ''\<newline>'' @
     ''Respond in this format only:\<newline>'' @
     ''Hook: [score]/25 - [brief reason]\<newline>'' @
     ''Content: [score]/25 - [brief reason]\<newline>'' @
     ''Readability: [score]/20 - [brief reason]\<newline>'' @
     ''CTA: [score]/15 - [brief reason]\<newline>'' @
     ''Authenticity: [score]/15 - [brief reason]\<newline>'' @
     ''Total: [total]/100\<newline>'' @
     ''Prediction: [Poor/Fair/Good/Excellent]''"

definition get_post_prompt :: "string \<Rightarrow> string \<Rightarrow> string \<Rightarrow> string \<Rightarrow> py_error + string" where
  "get_post_prompt tone topic len post_type =
     (if post_type \<noteq> ''general'' \<and> contains POST_TYPE_PROMPTS post_type then
        (case getitem POST_TYPE_PROMPTS post_type of
           Inl e \<Rightarrow> Inl e
         | Inr template \<Rightarrow>
             format template [(''topic'', topic), (''length'', len), (''tone'', tone)])
      else if contains POST_GENERATION_PROMPTS (lower tone) then
        (case getitem POST_GENERATION_PROMPTS (lower tone) of
           Inl e \<Rightarrow> Inl e
         | Inr template \<Rightarrow> format template [(''topic'', topic), (''length'', len)])
      else
        (case getitem POST_GENERATION_PROMPTS ''professional'' of
           Inl e \<Rightarrow> Inl e
         | Inr template \<Rightarrow> format template [(''topic'', topic), (''length'', len)]))"

definition get_hashtag_prompt :: "string \<Rightarrow> py_error + string" where
  "get_hashtag_prompt topic = format HASHTAG_PROMPT [(''topic'', topic)]"

text \<open>The result is \<open>Inr None\<close> where the Python returns \<open>None\<close>.\<close>

definition get_refinement_prompt :: "string \<Rightarrow> string \<Rightarrow> py_error + string option" where
  "get_refinement_prompt refinement_type post =
     (if contains REFINEMENT_PROMPTS refinement_type then
        (case getitem REFINEMENT_PROMPTS refinement_type of
           Inl e \<Rightarrow> Inl e
         | Inr template \<Rightarrow> map_sum id Some (format template [(''post'', post)]))
      else Inr None)"

definition get_engagement_score_prompt :: "string \<Rightarrow> py_error + string" where
  "get_engagement_score_prompt post = format ENGAGEMENT_SCORE_PROMPT [(''post'', post)]"

section \<open>Text helpers (utils.py)\<close>

definition count_words :: "string \<Rightarrow> nat" where
  "count_words text = (if text = [] then 0 else length (split_ws text))"

definition truncate_text :: "string \<Rightarrow> int \<Rightarrow> string \<Rightarrow> string" where
  "truncate_text text max_length suffix =
     (if int (length text) \<le> max_length then text
      else rstrip (slice_to (max_length - int (length suffix)) text) @ suffix)"

text \<open>
  The loop of \<open>format_hashtags\<close> over \<open>tags\<close>: each tag is stripped, gets a
  \<open>#\<close> in front unless it is empty or starts with one, and is appended to
  \<open>formatted_tags\<close> unless it is empty.
\<close>

fun formatted_tags :: "string list \<Rightarrow> string list" where
  "formatted_tags [] = []"
| "formatted_tags (tag0 # tags) =
     (let tag1 = strip tag0;
          tag = (if tag1 \<noteq> [] \<and> \<not> startswith tag1 ''#'' then ''#'' @ tag1 else tag1)
      in if tag \<noteq> [] then tag # formatted_tags tags else formatted_tags tags)"

definition format_hashtags :: "string \<Rightarrow> string" where
  "format_hashtags hashtags =
     (if hashtags = [] then []
      else join '' '' (formatted_tags (split_ws (replace CHR '','' '' '' hashtags))))"

text \<open>
  \<open>word_count / words_per_minute\<close> divides two integers into a float and raises
  \<open>ZeroDivisionError\<close> for a zero divisor; \<open>minutes * 60\<close> is a float product.
\<close>

definition estimate_read_time :: "(rat \<Rightarrow> rat) \<Rightarrow> string \<Rightarrow> int \<Rightarrow> py_error + int" where
  "estimate_read_time rnd text words_per_minute =
     (let word_count = count_words text
      in if words_per_minute = 0 then Inl ZeroDivisionError
         else (let minutes = rnd (of_nat word_count / of_int words_per_minute)
               in Inr (int_of_float (rnd (minutes * 60)))))"

text \<open>
  \<open>get_relative_time\<close> reads the clock and parses the timestamp with
  \<open>datetime.strptime\<close>. Both are parameters here: \<open>now\<close> is the value of
  \<open>datetime.now()\<close> and \<open>strptime timestamp\<close> the parsed time, each as a number of
  microseconds on the time line of naive datetimes, with \<open>None\<close> where \<open>strptime\<close>
  raises. The difference of two datetimes is exact, \<open>total_seconds()\<close> is that number
  of microseconds divided by \<open>10 ^ 6\<close> as a float, and the bare \<open>except\<close> turns every
  exception into \<open>unknown\<close>.
\<close>

definition plural :: "int \<Rightarrow> string" where
  "plural n = (if n \<noteq> 1 then ''s'' else '''')"

definition get_relative_time :: "(string \<Rightarrow> int option) \<Rightarrow> (rat \<Rightarrow> rat) \<Rightarrow> int \<Rightarrow> string \<Rightarrow> string" where
  "get_relative_time strptime rnd now timestamp =
     (case strptime timestamp of
        None \<Rightarrow> ''unknown''
      | Some dt \<Rightarrow>
          (let diff = now - dt;
               seconds = rnd (of_int diff / 1000000)
           in if seconds < 60 then ''just now''
              else if seconds < 3600 then
                (let minutes = int_of_float (rnd (seconds / 60))
                 in str_int minutes @ '' minute'' @ plural minutes @ '' ago'')
              else if seconds < 86400 then
                (let hours = int_of_float (rnd (seconds / 3600))
                 in str_int hours @ '' hour'' @ plural hours @ '' ago'')
              else if seconds < 604800 then
                (let days = int_of_float (rnd (seconds / 86400))
                 in str_int days @ '' day'' @ plural days @ '' ago'')
              else
                (let weeks = int_of_float (rnd (seconds / 604800))
                 in str_int weeks @ '' week'' @ plural weeks @ '' ago'')))"

section \<open>The generation client (generator.py)\<close>

text \<open>
  The hosted chat-completion service is a parameter: it maps a request to the content
  of the first choice, or to the message of the exception the client library raises.
  The list of requests sent so far is the state, passed through every operation, so that what
  an operation sends can be read off the list it returns.
\<close>

record request =
  system_content :: string
  user_content :: string
  model :: string
  temperature :: rat
  max_tokens :: nat

type_synonym service = "request \<Rightarrow> string + string"

definition call_groq_api ::
  "service \<Rightarrow> string \<Rightarrow> string \<Rightarrow> rat \<Rightarrow> nat \<Rightarrow> request list \<Rightarrow> (py_error + string) \<times> request list" where
  "call_groq_api service prompt system_prompt temp max_toks sent =
     (let req = \<lparr>system_content = system_prompt, user_content = prompt,
                 model = ''llama-3.3-70b-versatile'', temperature = temp, max_tokens = max_toks\<rparr>
      in (case service req of
            Inl msg \<Rightarrow> Inl (Exception (''Error calling Groq API: '' @ msg))
          | Inr content \<Rightarrow> Inr (strip content),
          sent @ [req]))"

definition generate_hashtags :: "service \<Rightarrow> string \<Rightarrow> request list \<Rightarrow> (py_error + string) \<times> request list" where
  "generate_hashtags service topic sent =
     (case get_hashtag_prompt topic of
        Inl e \<Rightarrow> (Inl e, sent)
      | Inr prompt \<Rightarrow>
          (case call_groq_api service prompt SYSTEM_PROMPT (6 / 10) 200 sent of
             (Inl e, sent') \<Rightarrow> (Inl e, sent')
           | (Inr reply, sent') \<Rightarrow>
               (let hashtags = strip reply
                in if \<not> startswith hashtags ''#'' then
                     (let words = split_ws hashtags
                      in (Inr (join '' '' (filter (\<lambda>word. startswith word ''#'') words)), sent'))
                   else (Inr hashtags, sent'))))"

text \<open>\<open>not prompt\<close> holds of \<open>None\<close> and of the empty string.\<close>

definition refine_post :: "service \<Rightarrow> string \<Rightarrow> string \<Rightarrow> request list \<Rightarrow> (py_error + string) \<times> request list" where
  "refine_post service post refinement_type sent =
     (case get_refinement_prompt refinement_type post of
        Inl e \<Rightarrow> (Inl e, sent)
      | Inr prompt \<Rightarrow>
          if prompt = None \<or> prompt = Some [] then
            (Inl (ValueError (''Invalid refinement type: '' @ refinement_type)), sent)
          else call_groq_api service (the prompt) SYSTEM_PROMPT (7 / 10) 1500 sent)"

record engagement =
  hook :: int
  content :: int
  readability :: int
  cta :: int
  authenticity :: int
  total :: int
  prediction :: string
  details :: string

text \<open>\<open>int(line.split("/")[0].split(":")[-1].strip())\<close>; a split is never empty.\<close>

definition score_of :: "string \<Rightarrow> py_error + int" where
  "score_of line = py_int (strip (last (split_on CHR '':'' (hd (split_on CHR ''/'' line)))))"

text \<open>\<open>line.split(":", 1)[1].strip()\<close>, with the \<open>IndexError\<close> of a split without a second piece.\<close>

definition label_of :: "string \<Rightarrow> py_error + string" where
  "label_of line =
     (case split_once CHR '':'' line of
        _ # piece # _ \<Rightarrow> Inr (strip piece)
      | _ \<Rightarrow> Inl IndexError)"

text \<open>One pass of the loop body over a line of the reply.\<close>

definition parse_line :: "engagement \<Rightarrow> string \<Rightarrow> py_error + engagement" where
  "parse_line result line0 =
     (let line = strip line0
      in if startswith line ''Hook:'' then
           map_sum id (\<lambda>v. result\<lparr>hook := v\<rparr>) (score_of line)
         else if startswith line ''Content:'' then
           map_sum id (\<lambda>v. result\<lparr>content := v\<rparr>) (score_of line)
         else if startswith line ''Readability:'' then
           map_sum id (\<lambda>v. result\<lparr>readability := v\<rparr>) (score_of line)
         else if startswith line ''CTA:'' then
           map_sum id (\<lambda>v. result\<lparr>cta := v\<rparr>) (score_of line)
         else if startswith line ''Authenticity:'' then
           map_sum id (\<lambda>v. result\<lparr>authenticity := v\<rparr>) (score_of line)
         else if startswith line ''Total:'' then
           map_sum id (\<lambda>v. result\<lparr>total := v\<rparr>) (score_of line)
         else if startswith line ''Prediction:'' then
           map_sum id (\<lambda>v. result\<lparr>prediction := v\<rparr>) (label_of line)
         else Inr result)"

text \<open>
  The loop inside \<open>try\<close>: an exception in the body leaves the loop, and
  \<open>except: pass\<close> goes on with \<open>result\<close> as it is then.
\<close>

fun parse_lines :: "engagement \<Rightarrow> string list \<Rightarrow> engagement" where
  "parse_lines result [] = result"
| "parse_lines result (line # lines) =
     (case parse_line result line of
        Inl e \<Rightarrow> result
      | Inr result' \<Rightarrow> parse_lines result' lines)"

definition initial_result :: "string \<Rightarrow> engagement" where
  "initial_result response =
     \<lparr>hook = 0, content = 0, readability = 0, cta = 0, authenticity = 0, total = 0,
      prediction = ''Unknown'', details = response\<rparr>"

definition predict_engagement :: "service \<Rightarrow> string \<Rightarrow> request list \<Rightarrow> (py_error + engagement) \<times> request list" where
  "predict_engagement service post sent =
     (case get_engagement_score_prompt post of
        Inl e \<Rightarrow> (Inl e, sent)
      | Inr prompt \<Rightarrow>
          (case call_groq_api service prompt SYSTEM_PROMPT (3 / 10) 500 sent of
             (Inl e, sent') \<Rightarrow> (Inl e, sent')
           | (Inr response, sent') \<Rightarrow>
               (Inr (parse_lines (initial_result response) (split_on CHR ''\<newline>'' response)), sent')))"

section \<open>Notions used to state the properties\<close>

text \<open>A token is a string that is not empty and holds no whitespace.\<close>

definition token :: "string \<Rightarrow> bool" where
  "token t \<longleftrightarrow> t \<noteq> [] \<and> (\<forall>c\<in>set t. \<not> isspace c)"

text \<open>A literal piece of a template holds no brace.\<close>

definition literal :: "string \<Rightarrow> bool" where
  "literal s \<longleftrightarrow> CHR ''{'' \<notin> set s \<and> CHR ''}'' \<notin> set s"

text \<open>What \<open>format_hashtags\<close> does to one token.\<close>

definition with_hash :: "string \<Rightarrow> string" where
  "with_hash t = (if startswith t ''#'' then t else ''#'' @ t)"

text \<open>
  The notions of what \<open>predict_engagement\<close> is to return, in the words of its claim. A
  scored line is one that, stripped, starts with one of the six score prefixes. The
  value of a line is the text after the last colon of the part before the first slash,
  stripped. A bad line is a scored line whose value is not an integer.
\<close>

definition score_prefixes :: "string list" where
  "score_prefixes =
     [''Hook:'', ''Content:'', ''Readability:'', ''CTA:'', ''Authenticity:'', ''Total:'']"

definition value_text :: "string \<Rightarrow> string" where
  "value_text line =
     strip (rev (takeWhile (\<lambda>c. c \<noteq> CHR '':'') (rev (takeWhile (\<lambda>c. c \<noteq> CHR ''/'') line))))"

definition bad_line :: "string \<Rightarrow> bool" where
  "bad_line line \<longleftrightarrow>
     (\<exists>p\<in>set score_prefixes. startswith (strip line) p) \<and> isl (py_int (value_text (strip line)))"

text \<open>
  The lines that are read are those before the first bad line. Among them, the last
  line with a prefix decides the field of that prefix: a score field holds the integer
  that is the value of that line, the prediction holds the text after its first colon,
  stripped, and a field with no such line keeps its default.
\<close>

definition lines_read :: "string \<Rightarrow> string list" where
  "lines_read response = takeWhile (\<lambda>line. \<not> bad_line line) (split_on CHR ''\<newline>'' response)"

definition last_with :: "string \<Rightarrow> string list \<Rightarrow> string option" where
  "last_with p ls =
     (case filter (\<lambda>line. startswith line p) (map strip ls) of
        [] \<Rightarrow> None
      | x # xs \<Rightarrow> Some (last (x # xs)))"

definition line_score :: "string \<Rightarrow> int" where
  "line_score line = (case py_int (value_text line) of Inl e \<Rightarrow> 0 | Inr v \<Rightarrow> v)"

definition line_label :: "string \<Rightarrow> string" where
  "line_label line = strip (drop 1 (dropWhile (\<lambda>c. c \<noteq> CHR '':'') line))"

definition score_field :: "string \<Rightarrow> string list \<Rightarrow> int" where
  "score_field p ls = (case last_with p ls of None \<Rightarrow> 0 | Some line \<Rightarrow> line_score line)"

definition label_field :: "string list \<Rightarrow> string" where
  "label_field ls =
     (case last_with ''Prediction:'' ls of None \<Rightarrow> ''Unknown'' | Some line \<Rightarrow> line_label line)"

definition best_effort_result :: "string \<Rightarrow> engagement" where
  "best_effort_result response =
     \<lparr>hook = score_field ''Hook:'' (lines_read response),
      content = score_field ''Content:'' (lines_read response),
      readability = score_field ''Readability:'' (lines_read response),
      cta = score_field ''CTA:'' (lines_read response),
      authenticity = score_field ''Authenticity:'' (lines_read response),
      total = score_field ''Total:'' (lines_read response),
      prediction = label_field (lines_read response),
      details = response\<rparr>"

text \<open>The service that answers every request with the same content.\<close>

definition replying :: "string \<Rightarrow> service" where
  "replying reply = (\<lambda>req. Inr reply)"

section \<open>Facts about the string operations\<close>

lemmas str_defs =
  isspace_def lstrip_def rstrip_def strip_def startswith_def split_ws_def split_once_def
  replace_def slice_to_def

lemma isspace_space: "isspace CHR '' ''"
  by (simp add: isspace_def)

lemma not_isspace_hash: "\<not> isspace CHR ''#''"
  by (simp add: isspace_def)

lemma split_on_nonempty: "split_on sep s \<noteq> []"
  by (induction s) (auto split: list.splits)

lemma length_rstrip_le: "length (rstrip s) \<le> length s"
  unfolding rstrip_def using length_dropWhile_le [of isspace "rev s"] by simp

lemma split_from_tokens:
  "(\<forall>c\<in>set cur. \<not> isspace c) \<Longrightarrow> \<forall>t\<in>set (split_from cur s). token t \<and> set t \<subseteq> set cur \<union> set s"
proof (induction s arbitrary: cur)
  case Nil
  then show ?case by (simp add: token_def)
next
  case (Cons c cs)
  show ?case
  proof (cases "isspace c")
    case True
    have "\<forall>t\<in>set (split_from [] cs). token t \<and> set t \<subseteq> set [] \<union> set cs"
      by (rule Cons.IH) simp
    with True Cons.prems show ?thesis by (auto simp: token_def)
  next
    case False
    with Cons.prems have "\<forall>ca\<in>set (cur @ [c]). \<not> isspace ca" by simp
    then have "\<forall>t\<in>set (split_from (cur @ [c]) cs). token t \<and> set t \<subseteq> set (cur @ [c]) \<union> set cs"
      by (rule Cons.IH)
    with False show ?thesis by auto
  qed
qed

lemma split_ws_tokens: "t \<in> set (split_ws s) \<Longrightarrow> token t \<and> set t \<subseteq> set s"
  using split_from_tokens [of "[]" s] by (simp add: split_ws_def)

lemma split_from_word:
  "\<forall>c\<in>set t. \<not> isspace c \<Longrightarrow> split_from cur (t @ rest) = split_from (cur @ t) rest"
  by (induction t arbitrary: cur) simp_all

lemma join_Cons: "join sep (x # ts) = (if ts = [] then x else x @ sep @ join sep ts)"
  by (cases ts) simp_all

lemma split_ws_join:
  "\<forall>t\<in>set ts. token t \<Longrightarrow> split_ws (join '' '' ts) = ts"
proof (induction ts)
  case Nil
  then show ?case by (simp add: split_ws_def)
next
  case (Cons x ts)
  then have tx: "token x" and rest: "split_ws (join '' '' ts) = ts" by simp_all
  then have nows: "\<forall>c\<in>set x. \<not> isspace c" and ne: "x \<noteq> []" by (simp_all add: token_def)
  show ?case
  proof (cases "ts = []")
    case True
    have "split_from [] (x @ []) = split_from ([] @ x) []"
      using nows by (rule split_from_word)
    with True ne show ?thesis by (simp add: split_ws_def)
  next
    case False
    have "split_from [] (x @ '' '' @ join '' '' ts) = split_from ([] @ x) ('' '' @ join '' '' ts)"
      using nows by (rule split_from_word)
    also have "\<dots> = x # split_from [] (join '' '' ts)"
      using ne by (simp add: isspace_space)
    finally show ?thesis using rest False by (simp add: split_ws_def join_Cons)
  qed
qed

lemma strip_token: "token t \<Longrightarrow> strip t = t"
proof -
  assume t: "token t"
  then have "dropWhile isspace t = t" by (cases t) (auto simp: token_def)
  moreover have "dropWhile isspace (rev t) = rev t"
    using t by (cases "rev t") (auto simp: token_def)
  ultimately show ?thesis by (simp add: strip_def lstrip_def rstrip_def)
qed

lemma formatted_tags_tokens:
  "\<forall>t\<in>set ts. token t \<Longrightarrow> formatted_tags ts = map with_hash ts"
  by (induction ts) (simp_all add: strip_token token_def with_hash_def)

lemma token_with_hash: "token t \<Longrightarrow> token (with_hash t)"
  by (simp add: token_def not_isspace_hash with_hash_def)

lemma startswith_with_hash: "startswith (with_hash t) ''#''"
  by (simp add: startswith_def with_hash_def)

lemma with_hash_idem: "startswith t ''#'' \<Longrightarrow> with_hash t = t"
  by (simp add: with_hash_def)

lemma replace_absent: "old \<notin> set s \<Longrightarrow> replace old new s = s"
  by (induction s) (auto simp: replace_def)

lemma set_replace: "set (replace old new s) \<subseteq> (set s - {old}) \<union> set new"
  by (induction s) (auto simp: replace_def)

lemma set_join_subset: "set (join sep ts) \<subseteq> set sep \<union> \<Union> (set ` set ts)"
  by (induction sep ts rule: join.induct) auto

lemma format_hashtags_eq:
  "s \<noteq> [] \<Longrightarrow> format_hashtags s = join '' '' (map with_hash (split_ws (replace CHR '','' '' '' s)))"
  using formatted_tags_tokens [of "split_ws (replace CHR '','' '' '' s)"] split_ws_tokens
  by (simp add: format_hashtags_def)

lemma tokens_with_hash: "\<forall>t\<in>set (map with_hash (split_ws u)). token t"
  using split_ws_tokens token_with_hash by simp

lemma format_hashtags_split:
  "split_ws (format_hashtags s) = map with_hash (split_ws (replace CHR '','' '' '' s))"
proof (cases "s = []")
  case True
  then show ?thesis by (simp add: format_hashtags_def split_ws_def replace_def)
next
  case False
  then show ?thesis
    using split_ws_join [OF tokens_with_hash] by (simp add: format_hashtags_eq)
qed

lemma no_comma_output: "CHR '','' \<notin> set (format_hashtags s)"
proof (cases "s = []")
  case True
  then show ?thesis by (simp add: format_hashtags_def)
next
  case False
  let ?ts = "split_ws (replace CHR '','' '' '' s)"
  have "CHR '','' \<notin> set (replace CHR '','' '' '' s)"
    using set_replace [of "CHR '',''" "'' ''" s] by auto
  then have "\<forall>t\<in>set ?ts. CHR '','' \<notin> set t"
    using split_ws_tokens by blast
  then have "\<forall>t\<in>set (map with_hash ?ts). CHR '','' \<notin> set t"
    by (auto simp: with_hash_def split: if_splits)
  then have "CHR '','' \<notin> set (join '' '' (map with_hash ?ts))"
    using set_join_subset [of "'' ''" "map with_hash ?ts"] by auto
  with False show ?thesis by (simp add: format_hashtags_eq)
qed

lemma strip_idem: "strip (strip s) = strip s"
proof -
  let ?t = "dropWhile isspace s"
  let ?u = "rev (dropWhile isspace (rev ?t))"
  have split: "?t = ?u @ rev (takeWhile isspace (rev ?t))"
    using takeWhile_dropWhile_id [of isspace "rev ?t"] by (metis rev_append rev_rev_ident)
  have left: "dropWhile isspace ?u = ?u"
  proof (cases "?u = []")
    case True
    then show ?thesis by (metis dropWhile.simps(1))
  next
    case False
    then have "?t \<noteq> []" by (metis dropWhile.simps(1) rev.simps(1))
    then have "\<not> isspace (hd ?t)" by (rule hd_dropWhile)
    moreover have "hd ?t = hd ?u" using split False by (metis hd_append2)
    ultimately show ?thesis by (simp add: dropWhile_eq_self_iff)
  qed
  have right: "dropWhile isspace (rev ?u) = rev ?u" by simp
  show ?thesis
    unfolding strip_def lstrip_def rstrip_def using left right by simp
qed

lemma split_on_absent: "sep \<notin> set s \<Longrightarrow> split_on sep s = [s]"
  by (induction s) auto

lemma split_on_present: "sep \<in> set s \<Longrightarrow> \<exists>p q qs. split_on sep s = p # q # qs"
proof (induction s)
  case Nil
  then show ?case by simp
next
  case (Cons c cs)
  show ?case
  proof (cases "c = sep")
    case True
    obtain q qs where "split_on sep cs = q # qs"
      using split_on_nonempty [of sep cs] by (cases "split_on sep cs") auto
    with True show ?thesis by simp
  next
    case False
    with Cons.prems have "sep \<in> set cs" by simp
    then obtain p q qs where "split_on sep cs = p # q # qs" using Cons.IH by blast
    with False show ?thesis by simp
  qed
qed

lemma hd_split_on: "hd (split_on sep s) = takeWhile (\<lambda>c. c \<noteq> sep) s"
proof (induction s)
  case Nil
  show ?case by simp
next
  case (Cons c cs)
  with split_on_nonempty [of sep cs] show ?case
    by (cases "split_on sep cs") auto
qed

lemma takeWhile_snoc_present:
  "sep \<in> set cs \<Longrightarrow>
     takeWhile (\<lambda>c. c \<noteq> sep) (rev cs @ [c]) = takeWhile (\<lambda>c. c \<noteq> sep) (rev cs)"
  by (rule takeWhile_append1 [of sep]) auto

lemma takeWhile_snoc_absent:
  "sep \<notin> set cs \<Longrightarrow>
     takeWhile (\<lambda>c. c \<noteq> sep) (rev cs @ [c]) = rev cs @ (if c = sep then [] else [c])"
proof -
  assume "sep \<notin> set cs"
  then have "takeWhile (\<lambda>c. c \<noteq> sep) (rev cs @ [c]) = rev cs @ takeWhile (\<lambda>c. c \<noteq> sep) [c]"
    by (intro takeWhile_append2) auto
  then show ?thesis by simp
qed

lemma last_split_on: "last (split_on sep s) = rev (takeWhile (\<lambda>c. c \<noteq> sep) (rev s))"
proof (induction s)
  case Nil
  show ?case by simp
next
  case (Cons c cs)
  show ?case
  proof (cases "sep \<in> set cs")
    case True
    then obtain p q qs where pq: "split_on sep cs = p # q # qs"
      using split_on_present by blast
    then have "last (split_on sep (c # cs)) = last (split_on sep cs)" by simp
    with Cons.IH True show ?thesis by (simp add: takeWhile_snoc_present)
  next
    case False
    then have "split_on sep cs = [cs]" by (rule split_on_absent)
    with False show ?thesis by (simp add: takeWhile_snoc_absent)
  qed
qed

lemma startswith_take: "startswith s p \<Longrightarrow> n \<le> length p \<Longrightarrow> take n s = take n p"
proof -
  assume sp: "startswith s p" and n: "n \<le> length p"
  have "take n p = take n (take (length p) s)" using sp by (simp add: startswith_def)
  also have "\<dots> = take n s" using n by (simp add: min_def)
  finally show ?thesis by simp
qed

lemma not_startswith: "2 \<le> length q \<Longrightarrow> take 2 s \<noteq> take 2 q \<Longrightarrow> startswith s q \<longleftrightarrow> False"
  using startswith_take [of s q 2] by auto

lemma startswith_set: "startswith s p \<Longrightarrow> set p \<subseteq> set s"
  unfolding startswith_def using set_take_subset [of "length p" s] by auto

section \<open>Facts about the float model\<close>

lemma int_of_float_mono: "x \<le> y \<Longrightarrow> int_of_float x \<le> int_of_float y"
proof -
  assume xy: "x \<le> y"
  show ?thesis
  proof (cases "0 \<le> x")
    case True
    with xy show ?thesis by (simp add: int_of_float_def floor_mono)
  next
    case False
    show ?thesis
    proof (cases "0 \<le> y")
      case True
      have "\<lceil>x\<rceil> \<le> 0" using False by (simp add: ceiling_le_zero)
      moreover have "0 \<le> \<lfloor>y\<rfloor>" using True by simp
      ultimately have "\<lceil>x\<rceil> \<le> \<lfloor>y\<rfloor>" by (rule order_trans)
      then show ?thesis using False True by (simp add: int_of_float_def)
    next
      case ny: False
      with False xy show ?thesis by (simp add: int_of_float_def ceiling_mono)
    qed
  qed
qed

lemma float_rounding_mono: "float_rounding rnd \<Longrightarrow> x \<le> y \<Longrightarrow> rnd x \<le> rnd y"
  by (simp add: float_rounding_def)

lemma float_rounding_int: "float_rounding rnd \<Longrightarrow> \<bar>n\<bar> \<le> 2 ^ 53 \<Longrightarrow> rnd (of_int n) = of_int n"
  by (simp add: float_rounding_def)

lemma float_rounding_id: "float_rounding (\<lambda>x. x)"
  by (simp add: float_rounding_def)

section \<open>Facts about \<open>str.format\<close> and the templates\<close>

text \<open>
  A template without braces is returned as it is, and a template made of two literal
  pieces around one field comes back with the argument in place of the field.
\<close>

lemma emit_emit: "emit a (emit b r) = emit (a @ b) r"
  by (cases r) simp_all

lemma format_from_literal:
  "literal a \<Longrightarrow> format_from kwargs None (a @ rest) = emit a (format_from kwargs None rest)"
proof (induction a)
  case Nil
  show ?case by (cases "format_from kwargs None rest") simp_all
next
  case (Cons c a)
  then have "literal a" and "c \<noteq> CHR ''{''" and "c \<noteq> CHR ''}''"
    by (auto simp: literal_def)
  with Cons.IH show ?case by (simp add: emit_emit)
qed

lemma format_literal: "literal s \<Longrightarrow> format s kwargs = Inr s"
  using format_from_literal [of s kwargs "[]"] by (simp add: format_def)

lemma format_one_field:
  assumes "literal pre" and "literal suf"
  shows "format (pre @ ''{post}'' @ suf) [(''post'', post)] = Inr (pre @ post @ suf)"
proof -
  let ?kw = "[(''post'', post)]"
  have "format_from ?kw None suf = Inr suf"
    using format_literal [OF assms(2)] by (simp add: format_def)
  then have "format_from ?kw None (''{post}'' @ suf) = Inr (post @ suf)"
    by (simp add: get_field_def getitem_def isdigit_def)
  then show ?thesis
    using format_from_literal [OF assms(1), of ?kw "''{post}'' @ suf"] by (simp add: format_def)
qed

lemmas format_defs = format_def get_field_def getitem_def contains_def isdigit_def

lemma refinement_keys:
  "contains REFINEMENT_PROMPTS k \<longleftrightarrow>
     k \<in> {''make_shorter'', ''make_longer'', ''add_storytelling'', ''more_professional'', ''add_cta''}"
  by (auto simp add: contains_def REFINEMENT_PROMPTS_def)

lemma refinement_format:
  "contains REFINEMENT_PROMPTS k \<Longrightarrow>
     \<exists>template text. getitem REFINEMENT_PROMPTS k = Inr template \<and>
       format template [(''post'', post)] = Inr text \<and> text \<noteq> []"
  unfolding refinement_keys
  by (auto simp add: REFINEMENT_PROMPTS_def format_defs)

lemma post_type_keys:
  "contains POST_TYPE_PROMPTS k \<longleftrightarrow>
     k \<in> {''announcement'', ''tips'', ''question'', ''achievement'', ''industry_insight''}"
  by (auto simp add: contains_def POST_TYPE_PROMPTS_def)

lemma post_type_format:
  "contains POST_TYPE_PROMPTS k \<Longrightarrow>
     \<exists>template text. getitem POST_TYPE_PROMPTS k = Inr template \<and>
       format template [(''topic'', topic), (''length'', len), (''tone'', tone)] = Inr text"
  unfolding post_type_keys
  by (auto simp add: POST_TYPE_PROMPTS_def format_defs)

lemma tone_keys:
  "contains POST_GENERATION_PROMPTS k \<longleftrightarrow>
     k \<in> {''professional'', ''casual'', ''motivational'', ''educational'', ''storytelling'', ''thought-leadership''}"
  by (auto simp add: contains_def POST_GENERATION_PROMPTS_def)

lemma tone_format:
  "contains POST_GENERATION_PROMPTS k \<Longrightarrow>
     \<exists>template text. getitem POST_GENERATION_PROMPTS k = Inr template \<and>
       format template [(''topic'', topic), (''length'', len)] = Inr text"
  unfolding tone_keys
  by (auto simp add: POST_GENERATION_PROMPTS_def format_defs)

lemma hashtag_prompt_ok: "\<exists>text. get_hashtag_prompt topic = Inr text"
  by (simp add: get_hashtag_prompt_def HASHTAG_PROMPT_def format_defs)

lemma engagement_prompt_ok: "\<exists>text. get_engagement_score_prompt post = Inr text"
  by (simp add: get_engagement_score_prompt_def ENGAGEMENT_SCORE_PROMPT_def format_defs)

lemma getitem_map_of: "getitem d k = Inr v \<longleftrightarrow> map_of d k = Some v"
  by (simp add: getitem_def split: option.splits)

lemma contains_map_of: "contains d k \<longleftrightarrow> map_of d k \<noteq> None"
  by (simp add: contains_def map_of_eq_None_iff)

section \<open>Facts about the client\<close>

lemma call_replying:
  "call_groq_api (replying reply) prompt system_prompt temp max_toks sent =
     (Inr (strip reply),
      sent @ [\<lparr>system_content = system_prompt, user_content = prompt,
               model = ''llama-3.3-70b-versatile'', temperature = temp, max_tokens = max_toks\<rparr>])"
  by (simp add: call_groq_api_def replying_def)

lemma predict_replying:
  "fst (predict_engagement (replying reply) post sent) =
     Inr (parse_lines (initial_result (strip reply)) (split_on CHR ''\<newline>'' (strip reply)))"
proof -
  obtain prompt where "get_engagement_score_prompt post = Inr prompt"
    using engagement_prompt_ok by blast
  then show ?thesis by (simp add: predict_engagement_def call_replying)
qed

text \<open>
  The code's two extractions agree with the value and the label of a line as the claim
  words them.
\<close>

lemma score_of_value: "score_of line = py_int (value_text line)"
  by (simp add: score_of_def value_text_def hd_split_on last_split_on)

lemma label_of_label: "startswith line ''Prediction:'' \<Longrightarrow> label_of line = Inr (line_label line)"
  using startswith_set [of line "''Prediction:''"]
  by (simp add: label_of_def split_once_def line_label_def drop_Suc)

text \<open>
  One pass of the loop body: on a line that is not bad it returns, and the line sets
  the field of its prefix and no other; on a bad line it raises.
\<close>

lemma parse_line_good:
  assumes "\<not> bad_line l"
  shows "\<exists>r'. parse_line r l = Inr r' \<and>
           hook r' = (if startswith (strip l) ''Hook:'' then line_score (strip l) else hook r) \<and>
           content r' = (if startswith (strip l) ''Content:'' then line_score (strip l) else content r) \<and>
           readability r' = (if startswith (strip l) ''Readability:'' then line_score (strip l) else readability r) \<and>
           cta r' = (if startswith (strip l) ''CTA:'' then line_score (strip l) else cta r) \<and>
           authenticity r' = (if startswith (strip l) ''Authenticity:'' then line_score (strip l) else authenticity r) \<and>
           total r' = (if startswith (strip l) ''Total:'' then line_score (strip l) else total r) \<and>
           prediction r' = (if startswith (strip l) ''Prediction:'' then line_label (strip l) else prediction r) \<and>
           details r' = details r"
proof -
  let ?s = "strip l"
  have good: "\<exists>v. py_int (value_text ?s) = Inr v"
    if "startswith ?s p" and "p \<in> set score_prefixes" for p
    using assms that by (cases "py_int (value_text ?s)") (auto simp: bad_line_def)
  consider
    (c1) "startswith ?s ''Hook:''" |
    (c2) "startswith ?s ''Content:''" |
    (c3) "startswith ?s ''Readability:''" |
    (c4) "startswith ?s ''CTA:''" |
    (c5) "startswith ?s ''Authenticity:''" |
    (c6) "startswith ?s ''Total:''" |
    (c7) "startswith ?s ''Prediction:''" |
    (none) "\<forall>p\<in>set (score_prefixes @ [''Prediction:'']). \<not> startswith ?s p"
    by (auto simp: score_prefixes_def)
  then show ?thesis
  proof cases
    case c1
    then have t2: "take 2 ?s = ''Ho''"
      using startswith_take [of ?s "''Hook:''" 2] by simp
    from c1 obtain v where "py_int (value_text ?s) = Inr v"
      using good [of "''Hook:''"] by (auto simp: score_prefixes_def)
    with c1 show ?thesis
      by (simp add: parse_line_def score_of_value line_score_def not_startswith t2)
  next
    case c2
    then have t2: "take 2 ?s = ''Co''"
      using startswith_take [of ?s "''Content:''" 2] by simp
    from c2 obtain v where "py_int (value_text ?s) = Inr v"
      using good [of "''Content:''"] by (auto simp: score_prefixes_def)
    with c2 show ?thesis
      by (simp add: parse_line_def score_of_value line_score_def not_startswith t2)
  next
    case c3
    then have t2: "take 2 ?s = ''Re''"
      using startswith_take [of ?s "''Readability:''" 2] by simp
    from c3 obtain v where "py_int (value_text ?s) = Inr v"
      using good [of "''Readability:''"] by (auto simp: score_prefixes_def)
    with c3 show ?thesis
      by (simp add: parse_line_def score_of_value line_score_def not_startswith t2)
  next
    case c4
    then have t2: "take 2 ?s = ''CT''"
      using startswith_take [of ?s "''CTA:''" 2] by simp
    from c4 obtain v where "py_int (value_text ?s) = Inr v"
      using good [of "''CTA:''"] by (auto simp: score_prefixes_def)
    with c4 show ?thesis
      by (simp add: parse_line_def score_of_value line_score_def not_startswith t2)
  next
    case c5
    then have t2: "take 2 ?s = ''Au''"
      using startswith_take [of ?s "''Authenticity:''" 2] by simp
    from c5 obtain v where "py_int (value_text ?s) = Inr v"
      using good [of "''Authenticity:''"] by (auto simp: score_prefixes_def)
    with c5 show ?thesis
      by (simp add: parse_line_def score_of_value line_score_def not_startswith t2)
  next
    case c6
    then have t2: "take 2 ?s = ''To''"
      using startswith_take [of ?s "''Total:''" 2] by simp
    from c6 obtain v where "py_int (value_text ?s) = Inr v"
      using good [of "''Total:''"] by (auto simp: score_prefixes_def)
    with c6 show ?thesis
      by (simp add: parse_line_def score_of_value line_score_def not_startswith t2)
  next
    case c7
    then have t2: "take 2 ?s = ''Pr''"
      using startswith_take [of ?s "''Prediction:''" 2] by simp
    with c7 show ?thesis
      by (simp add: parse_line_def label_of_label not_startswith t2)
  next
    case none
    then show ?thesis
      by (simp add: parse_line_def score_prefixes_def)
  qed
qed

lemma parse_line_bad: "bad_line l \<Longrightarrow> isl (parse_line r l)"
proof -
  assume bad: "bad_line l"
  let ?s = "strip l"
  from bad have e: "isl (score_of ?s)" by (simp add: bad_line_def score_of_value)
  from bad consider
    (c1) "startswith ?s ''Hook:''" |
    (c2) "startswith ?s ''Content:''" |
    (c3) "startswith ?s ''Readability:''" |
    (c4) "startswith ?s ''CTA:''" |
    (c5) "startswith ?s ''Authenticity:''" |
    (c6) "startswith ?s ''Total:''"
    by (auto simp: bad_line_def score_prefixes_def)
  then show ?thesis
  proof cases
    case c1
    then have t2: "take 2 ?s = ''Ho''"
      using startswith_take [of ?s "''Hook:''" 2] by simp
    with c1 e show ?thesis
      by (simp add: parse_line_def isl_map_sum not_startswith t2)
  next
    case c2
    then have t2: "take 2 ?s = ''Co''"
      using startswith_take [of ?s "''Content:''" 2] by simp
    with c2 e show ?thesis
      by (simp add: parse_line_def isl_map_sum not_startswith t2)
  next
    case c3
    then have t2: "take 2 ?s = ''Re''"
      using startswith_take [of ?s "''Readability:''" 2] by simp
    with c3 e show ?thesis
      by (simp add: parse_line_def isl_map_sum not_startswith t2)
  next
    case c4
    then have t2: "take 2 ?s = ''CT''"
      using startswith_take [of ?s "''CTA:''" 2] by simp
    with c4 e show ?thesis
      by (simp add: parse_line_def isl_map_sum not_startswith t2)
  next
    case c5
    then have t2: "take 2 ?s = ''Au''"
      using startswith_take [of ?s "''Authenticity:''" 2] by simp
    with c5 e show ?thesis
      by (simp add: parse_line_def isl_map_sum not_startswith t2)
  next
    case c6
    then have t2: "take 2 ?s = ''To''"
      using startswith_take [of ?s "''Total:''" 2] by simp
    with c6 e show ?thesis
      by (simp add: parse_line_def isl_map_sum not_startswith t2)
  qed
qed

text \<open>
  The loop: it stops at the first bad line, and over lines none of which is bad each
  field ends as the last line with its prefix sets it.
\<close>

lemma last_with_Cons:
  "last_with p (l # ls) =
     (case last_with p ls of
        Some x \<Rightarrow> Some x
      | None \<Rightarrow> if startswith (strip l) p then Some (strip l) else None)"
  by (simp add: last_with_def split: list.splits)

lemma last_with_None: "last_with p ls = None \<longleftrightarrow> (\<forall>l\<in>set ls. \<not> startswith (strip l) p)"
proof -
  have "last_with p ls = None \<longleftrightarrow> filter (\<lambda>line. startswith line p) (map strip ls) = []"
    by (simp add: last_with_def split: list.splits)
  also have "\<dots> \<longleftrightarrow> (\<forall>l\<in>set ls. \<not> startswith (strip l) p)"
    by (simp add: filter_empty_conv)
  finally show ?thesis .
qed

lemma parse_lines_stop: "parse_lines r ls = parse_lines r (takeWhile (\<lambda>l. \<not> bad_line l) ls)"
proof (induction ls arbitrary: r)
  case Nil
  show ?case by simp
next
  case (Cons l ls)
  show ?case
  proof (cases "bad_line l")
    case True
    then have "isl (parse_line r l)" by (rule parse_line_bad)
    with True show ?thesis by (cases "parse_line r l") simp_all
  next
    case False
    then obtain r' where "parse_line r l = Inr r'" using parse_line_good [of l r] by blast
    with False Cons.IH [of r'] show ?thesis by simp
  qed
qed

lemma parse_lines_field:
  assumes step: "\<And>r l. \<not> bad_line l \<Longrightarrow>
      \<exists>r'. parse_line r l = Inr r' \<and> f r' = (if startswith (strip l) p then g (strip l) else f r)"
  shows "\<forall>l\<in>set ls. \<not> bad_line l \<Longrightarrow>
      f (parse_lines r ls) = (case last_with p ls of None \<Rightarrow> f r | Some l \<Rightarrow> g l)"
proof (induction ls arbitrary: r)
  case Nil
  show ?case by (simp add: last_with_def)
next
  case (Cons l ls)
  then have "\<not> bad_line l" and rest: "\<forall>l\<in>set ls. \<not> bad_line l" by simp_all
  then obtain r' where r': "parse_line r l = Inr r'"
    and f: "f r' = (if startswith (strip l) p then g (strip l) else f r)"
    using step [of l r] by blast
  have "f (parse_lines r' ls) = (case last_with p ls of None \<Rightarrow> f r' | Some l \<Rightarrow> g l)"
    using rest by (rule Cons.IH)
  with r' f show ?case
    by (simp add: last_with_Cons split: option.splits)
qed

lemma parse_line_details: "parse_line r line = Inr r' \<Longrightarrow> details r' = details r"
  by (auto simp: parse_line_def Let_def map_sum_def split: if_splits sum.splits)

lemma parse_lines_details: "details (parse_lines r ls) = details r"
  by (induction ls arbitrary: r) (auto split: sum.splits dest: parse_line_details)

lemma parse_lines_read:
  "parse_lines (initial_result response) (split_on CHR ''\<newline>'' response) =
     best_effort_result response"
proof -
  let ?ls = "lines_read response"
  let ?i = "initial_result response"
  let ?r = "parse_lines ?i ?ls"
  have good: "\<forall>l\<in>set ?ls. \<not> bad_line l"
    unfolding lines_read_def by (auto dest: set_takeWhileD)
  have "\<exists>r'. parse_line r l = Inr r' \<and>
      hook r' = (if startswith (strip l) ''Hook:'' then line_score (strip l) else hook r)"
    if "\<not> bad_line l" for r l
    using parse_line_good [OF that, of r] by blast
  then have "hook ?r = (case last_with ''Hook:'' ?ls of None \<Rightarrow> hook ?i | Some l \<Rightarrow> line_score l)"
    using good by (rule parse_lines_field)
  then have hook: "hook ?r = score_field ''Hook:'' ?ls"
    by (simp add: score_field_def initial_result_def split: option.splits)
  have "\<exists>r'. parse_line r l = Inr r' \<and>
      content r' = (if startswith (strip l) ''Content:'' then line_score (strip l) else content r)"
    if "\<not> bad_line l" for r l
    using parse_line_good [OF that, of r] by blast
  then have "content ?r = (case last_with ''Content:'' ?ls of None \<Rightarrow> content ?i | Some l \<Rightarrow> line_score l)"
    using good by (rule parse_lines_field)
  then have content: "content ?r = score_field ''Content:'' ?ls"
    by (simp add: score_field_def initial_result_def split: option.splits)
  have "\<exists>r'. parse_line r l = Inr r' \<and>
      readability r' = (if startswith (strip l) ''Readability:'' then line_score (strip l) else readability r)"
    if "\<not> bad_line l" for r l
    using parse_line_good [OF that, of r] by blast
  then have "readability ?r = (case last_with ''Readability:'' ?ls of None \<Rightarrow> readability ?i | Some l \<Rightarrow> line_score l)"
    using good by (rule parse_lines_field)
  then have readability: "readability ?r = score_field ''Readability:'' ?ls"
    by (simp add: score_field_def initial_result_def split: option.splits)
  have "\<exists>r'. parse_line r l = Inr r' \<and>
      cta r' = (if startswith (strip l) ''CTA:'' then line_score (strip l) else cta r)"
    if "\<not> bad_line l" for r l
    using parse_line_good [OF that, of r] by blast
  then have "cta ?r = (case last_with ''CTA:'' ?ls of None \<Rightarrow> cta ?i | Some l \<Rightarrow> line_score l)"
    using good by (rule parse_lines_field)
  then have cta: "cta ?r = score_field ''CTA:'' ?ls"
    by (simp add: score_field_def initial_result_def split: option.splits)
  have "\<exists>r'. parse_line r l = Inr r' \<and>
      authenticity r' = (if startswith (strip l) ''Authenticity:'' then line_score (strip l) else authenticity r)"
    if "\<not> bad_line l" for r l
    using parse_line_good [OF that, of r] by blast
  then have "authenticity ?r = (case last_with ''Authenticity:'' ?ls of None \<Rightarrow> authenticity ?i | Some l \<Rightarrow> line_score l)"
    using good by (rule parse_lines_field)
  then have authenticity: "authenticity ?r = score_field ''Authenticity:'' ?ls"
    by (simp add: score_field_def initial_result_def split: option.splits)
  have "\<exists>r'. parse_line r l = Inr r' \<and>
      total r' = (if startswith (strip l) ''Total:'' then line_score (strip l) else total r)"
    if "\<not> bad_line l" for r l
    using parse_line_good [OF that, of r] by blast
  then have "total ?r = (case last_with ''Total:'' ?ls of None \<Rightarrow> total ?i | Some l \<Rightarrow> line_score l)"
    using good by (rule parse_lines_field)
  then have total: "total ?r = score_field ''Total:'' ?ls"
    by (simp add: score_field_def initial_result_def split: option.splits)
  have "\<exists>r'. parse_line r l = Inr r' \<and>
      prediction r' = (if startswith (strip l) ''Prediction:'' then line_label (strip l) else prediction r)"
    if "\<not> bad_line l" for r l
    using parse_line_good [OF that, of r] by blast
  then have "prediction ?r = (case last_with ''Prediction:'' ?ls of None \<Rightarrow> prediction ?i | Some l \<Rightarrow> line_label l)"
    using good by (rule parse_lines_field)
  then have prediction: "prediction ?r = label_field ?ls"
    by (simp add: label_field_def initial_result_def split: option.splits)
  have details: "details ?r = response"
    by (simp add: parse_lines_details initial_result_def)
  have "?r = best_effort_result response"
    using hook content readability cta authenticity total prediction details
    by (simp add: best_effort_result_def)
  moreover have "parse_lines ?i (split_on CHR ''\<newline>'' response) = ?r"
    unfolding lines_read_def by (rule parse_lines_stop)
  ultimately show ?thesis by simp
qed

lemmas parse_defs = parse_line_def score_of_def label_of_def py_int_def int_space_def isdigit_def
  digit_value_def initial_result_def

section \<open>\<open>truncate_text\<close>\<close>

text \<open>
  C10. For every text and every suffix with \<open>len(suffix) <= max_length\<close>,
  \<open>truncate_text(text, max_length, suffix)\<close> returns a string of length at most
  \<open>max_length\<close>, and it returns \<open>text\<close> itself whenever
  \<open>len(text) <= max_length\<close>.
\<close>

theorem truncate_text_bounded:
  "int (length suffix) \<le> max_length \<Longrightarrow>
     int (length (truncate_text text max_length suffix)) \<le> max_length \<and>
     (int (length text) \<le> max_length \<longrightarrow> truncate_text text max_length suffix = text)"
proof -
  assume h: "int (length suffix) \<le> max_length"
  let ?k = "max_length - int (length suffix)"
  have "length (slice_to ?k text) \<le> nat ?k"
    using h by (simp add: slice_to_def)
  then have "length (rstrip (slice_to ?k text)) \<le> nat ?k"
    using length_rstrip_le [of "slice_to ?k text"] by linarith
  then have "int (length (rstrip (slice_to ?k text) @ suffix)) \<le> max_length"
    using h by simp
  then show ?thesis
    by (simp add: truncate_text_def)
qed

theorem truncate_text_bounded_witness:
  "int (length ''...'') \<le> 10 \<and>
   truncate_text ''hello   world, again'' 10 ''...'' = ''hello...'' \<and>
   int (length (truncate_text ''hello   world, again'' 10 ''...'')) \<le> 10 \<and>
   int (length ''short'') \<le> 10 \<and> truncate_text ''short'' 10 ''...'' = ''short''"
  using truncate_text_bounded [of "''...''" 10 "''hello   world, again''"]
    truncate_text_bounded [of "''...''" 10 "''short''"]
  by (simp add: truncate_text_def str_defs)

section \<open>\<open>format_hashtags\<close>\<close>

text \<open>
  C5, as the specification states it: every token of the output carries exactly one
  leading \<open>#\<close>. The input \<open>##ai\<close> comes back unchanged, a token with two.
\<close>

theorem format_hashtags_double_hash:
  "split_ws (format_hashtags ''##ai'') = [''##ai''] \<and> startswith ''##ai'' ''##''"
  by (simp add: format_hashtags_def str_defs)

text \<open>
  C5, amended. \<open>format_hashtags\<close> applied to \<open>ai, ml\<close> returns \<open>#ai #ml\<close>. In
  general commas separate tokens as whitespace does, the tokens of the output are the
  tokens of the input in order, each of them kept as it is when it starts with \<open>#\<close>
  and given one \<open>#\<close> in front otherwise, so every token of the output starts with
  \<open>#\<close>.
\<close>

theorem format_hashtags_tokens:
  "format_hashtags ''ai, ml'' = ''#ai #ml'' \<and>
   split_ws (format_hashtags s) = map with_hash (split_ws (replace CHR '','' '' '' s)) \<and>
   (\<forall>t\<in>set (split_ws (format_hashtags s)). startswith t ''#'')"
proof -
  have "format_hashtags ''ai, ml'' = ''#ai #ml''"
    by (simp add: format_hashtags_def str_defs)
  moreover have "\<forall>t\<in>set (split_ws (format_hashtags s)). startswith t ''#''"
    by (simp add: format_hashtags_split startswith_with_hash)
  ultimately show ?thesis
    using format_hashtags_split by blast
qed

theorem format_hashtags_tokens_witness:
  "split_ws (replace CHR '','' '' '' ''ai,#ml  ##x'') = [''ai'', ''#ml'', ''##x''] \<and>
   split_ws (format_hashtags ''ai,#ml  ##x'') = [''#ai'', ''#ml'', ''##x''] \<and>
   startswith ''#ai'' ''#'' \<and> startswith ''#ml'' ''#'' \<and> startswith ''##x'' ''#''"
  using format_hashtags_tokens [of "''ai,#ml  ##x''"]
  by (simp add: with_hash_def str_defs)

text \<open>
  C9. \<open>format_hashtags\<close> is idempotent: formatting its own output changes nothing.
\<close>

theorem format_hashtags_idempotent: "format_hashtags (format_hashtags s) = format_hashtags s"
proof (cases "format_hashtags s = []")
  case True
  then show ?thesis by (simp add: format_hashtags_def)
next
  case False
  let ?o = "format_hashtags s"
  let ?ts = "split_ws (replace CHR '','' '' '' s)"
  have sne: "s \<noteq> []" using False by (auto simp: format_hashtags_def)
  have "replace CHR '','' '' '' ?o = ?o"
    using no_comma_output by (rule replace_absent)
  then have "format_hashtags ?o = join '' '' (map with_hash (split_ws ?o))"
    using False by (simp add: format_hashtags_eq)
  also have "split_ws ?o = map with_hash ?ts" by (rule format_hashtags_split)
  also have "map with_hash (map with_hash ?ts) = map with_hash ?ts"
    by (simp add: with_hash_idem startswith_with_hash)
  finally show ?thesis using sne by (simp add: format_hashtags_eq)
qed


theorem format_hashtags_idempotent_witness:
  "format_hashtags (format_hashtags '' ai, #ml,,x '') = ''#ai #ml #x''"
  using format_hashtags_idempotent [of "'' ai, #ml,,x ''"]
  by (simp add: format_hashtags_def str_defs)

section \<open>\<open>estimate_read_time\<close> and \<open>get_relative_time\<close>\<close>

text \<open>
  C8. For a fixed positive \<open>words_per_minute\<close>, \<open>estimate_read_time\<close> is monotonically
  non-decreasing in the word count of its input: whenever
  \<open>count_words(t1) <= count_words(t2)\<close>, both calls return and the first result is at
  most the second.
\<close>

theorem estimate_read_time_monotone:
  "float_rounding rnd \<Longrightarrow> 0 < words_per_minute \<Longrightarrow> count_words t1 \<le> count_words t2 \<Longrightarrow>
     \<exists>r1 r2. estimate_read_time rnd t1 words_per_minute = Inr r1 \<and>
             estimate_read_time rnd t2 words_per_minute = Inr r2 \<and> r1 \<le> r2"
proof -
  assume fr: "float_rounding rnd" and pos: "0 < words_per_minute"
    and le: "count_words t1 \<le> count_words t2"
  let ?m1 = "rnd (of_nat (count_words t1) / of_int words_per_minute)"
  let ?m2 = "rnd (of_nat (count_words t2) / of_int words_per_minute)"
  have "(of_nat (count_words t1) :: rat) / of_int words_per_minute
          \<le> of_nat (count_words t2) / of_int words_per_minute"
    using pos le by (simp add: divide_right_mono)
  then have "?m1 \<le> ?m2" using fr by (rule float_rounding_mono [rotated])
  then have "?m1 * 60 \<le> ?m2 * 60" by simp
  then have "rnd (?m1 * 60) \<le> rnd (?m2 * 60)" using fr by (rule float_rounding_mono [rotated])
  then have "int_of_float (rnd (?m1 * 60)) \<le> int_of_float (rnd (?m2 * 60))"
    by (rule int_of_float_mono)
  then show ?thesis using pos by (simp add: estimate_read_time_def Let_def)
qed

theorem estimate_read_time_monotone_witness:
  "float_rounding (\<lambda>x. x) \<and> (0::int) < 60 \<and> count_words ''a b'' \<le> count_words ''a b  c'' \<and>
   estimate_read_time (\<lambda>x. x) ''a b'' 60 = Inr 2 \<and>
   estimate_read_time (\<lambda>x. x) ''a b  c'' 60 = Inr 3"
  using estimate_read_time_monotone [of "\<lambda>x. x" 60 "''a b''" "''a b  c''"] float_rounding_id
  by (simp add: estimate_read_time_def count_words_def int_of_float_def str_defs)

text \<open>
  C7. \<open>get_relative_time\<close> at the bucket boundaries: for a timestamp that parses to a
  time exactly 59 seconds before the current time it returns \<open>just now\<close>, at exactly 60
  seconds \<open>1 minute ago\<close>, and at exactly 3600 seconds \<open>1 hour ago\<close>.
\<close>

theorem get_relative_time_boundaries:
  "float_rounding rnd \<Longrightarrow> strptime timestamp = Some dt \<Longrightarrow>
     get_relative_time strptime rnd (dt + 59 * 1000000) timestamp = ''just now'' \<and>
     get_relative_time strptime rnd (dt + 60 * 1000000) timestamp = ''1 minute ago'' \<and>
     get_relative_time strptime rnd (dt + 3600 * 1000000) timestamp = ''1 hour ago''"
proof -
  assume fr: "float_rounding rnd" and ts: "strptime timestamp = Some dt"
  have r59: "rnd 59 = 59" using float_rounding_int [OF fr, of 59] by simp
  have r60: "rnd 60 = 60" using float_rounding_int [OF fr, of 60] by simp
  have r3600: "rnd 3600 = 3600" using float_rounding_int [OF fr, of 3600] by simp
  have r1: "rnd 1 = 1" using float_rounding_int [OF fr, of 1] by simp
  have one: "str_int 1 = ''1''"
    by (simp add: str_int_def str_nat.simps digit_char_def)
  have "get_relative_time strptime rnd (dt + 59 * 1000000) timestamp = ''just now''"
    using ts r59 by (simp add: get_relative_time_def)
  moreover have "get_relative_time strptime rnd (dt + 60 * 1000000) timestamp = ''1 minute ago''"
    using ts r60 r1 one by (simp add: get_relative_time_def int_of_float_def plural_def)
  moreover have "get_relative_time strptime rnd (dt + 3600 * 1000000) timestamp = ''1 hour ago''"
    using ts r3600 r1 one by (simp add: get_relative_time_def int_of_float_def plural_def)
  ultimately show ?thesis by simp
qed

theorem get_relative_time_boundaries_witness:
  "float_rounding (\<lambda>x. x) \<and>
   map_of [(''2024-01-01 00:00:00'', 1704067200000000)] ''2024-01-01 00:00:00'' = Some 1704067200000000 \<and>
   get_relative_time (map_of [(''2024-01-01 00:00:00'', 1704067200000000)]) (\<lambda>x. x)
     (1704067200000000 + 60 * 1000000) ''2024-01-01 00:00:00'' = ''1 minute ago''"
  using get_relative_time_boundaries [of "\<lambda>x. x" "map_of [(''2024-01-01 00:00:00'', 1704067200000000)]"
      "''2024-01-01 00:00:00''" 1704067200000000] float_rounding_id
  by simp

section \<open>Refinement templates\<close>

text \<open>
  C2, as the specification states it: the lookup recognizes the kinds \<open>shorten\<close> and
  \<open>lengthen\<close>. The table has neither key, and the lookup returns \<open>None\<close> for both.
\<close>

theorem get_refinement_prompt_shorten:
  "get_refinement_prompt ''shorten'' ''My post'' = Inr None \<and>
   get_refinement_prompt ''lengthen'' ''My post'' = Inr None"
  by (simp add: get_refinement_prompt_def contains_def REFINEMENT_PROMPTS_def)

text \<open>
  C2, amended. The refinement-template lookup recognizes exactly the kinds
  \<open>make_shorter\<close>, \<open>make_longer\<close>, \<open>add_storytelling\<close>, \<open>more_professional\<close> and
  \<open>add_cta\<close>: for each of these five \<open>get_refinement_prompt\<close> returns the kind's
  template formatted with the post, and for every other kind it returns \<open>None\<close>.
\<close>

theorem get_refinement_prompt_kinds:
  "(kind \<in> {''make_shorter'', ''make_longer'', ''add_storytelling'', ''more_professional'', ''add_cta''} \<longrightarrow>
      (\<exists>template text. map_of REFINEMENT_PROMPTS kind = Some template \<and>
         format template [(''post'', post)] = Inr text \<and>
         get_refinement_prompt kind post = Inr (Some text))) \<and>
   (kind \<notin> {''make_shorter'', ''make_longer'', ''add_storytelling'', ''more_professional'', ''add_cta''} \<longrightarrow>
      get_refinement_prompt kind post = Inr None)"
proof (cases "contains REFINEMENT_PROMPTS kind")
  case True
  from refinement_format [OF True, of post] obtain template rendered where
    t: "getitem REFINEMENT_PROMPTS kind = Inr template"
    and f: "format template [(''post'', post)] = Inr rendered" by blast
  from t have "map_of REFINEMENT_PROMPTS kind = Some template"
    by (simp add: getitem_def split: option.splits)
  with True t f show ?thesis
    by (simp add: get_refinement_prompt_def refinement_keys)
next
  case False
  then show ?thesis
    by (simp add: get_refinement_prompt_def refinement_keys)
qed

theorem get_refinement_prompt_kinds_witness:
  "''add_cta'' \<in> {''make_shorter'', ''make_longer'', ''add_storytelling'', ''more_professional'', ''add_cta''} \<and>
   get_refinement_prompt ''add_cta'' ''Hello.'' =
     Inr (Some (''Add a compelling call-to-action to this LinkedIn post:\<newline>'' @
                ''\<newline>'' @
                ''Original post:\<newline>'' @
                ''Hello.\<newline>'' @
                ''\<newline>'' @
                ''Requirements:\<newline>'' @
                ''- Add an engaging CTA at the end\<newline>'' @
                ''- Encourage comments, shares, or discussion\<newline>'' @
                ''- Make it feel natural\<newline>'' @
                ''- NO hashtags\<newline>'' @
                ''\<newline>'' @
                ''Post with CTA:'')) \<and>
   ''polish'' \<notin> {''make_shorter'', ''make_longer'', ''add_storytelling'', ''more_professional'', ''add_cta''} \<and>
   get_refinement_prompt ''polish'' ''Hello.'' = Inr None"
  using get_refinement_prompt_kinds [of "''add_cta''" "''Hello.''"]
    get_refinement_prompt_kinds [of "''polish''" "''Hello.''"]
  by (simp add: get_refinement_prompt_def REFINEMENT_PROMPTS_def format_defs)

text \<open>
  C3. For every post and every refinement kind outside the recognized set,
  \<open>refine_post\<close> raises \<open>ValueError\<close> and the list of requests sent is the one it
  started with: the service is not contacted. The service is arbitrary in the
  statement, since it is never asked.
\<close>

theorem refine_post_rejects:
  "refinement_type \<notin> {''make_shorter'', ''make_longer'', ''add_storytelling'', ''more_professional'', ''add_cta''} \<Longrightarrow>
     refine_post service post refinement_type sent =
       (Inl (ValueError (''Invalid refinement type: '' @ refinement_type)), sent)"
  using refinement_keys [of refinement_type]
  by (simp add: refine_post_def get_refinement_prompt_def)

theorem refine_post_rejects_witness:
  "''shorten'' \<notin> {''make_shorter'', ''make_longer'', ''add_storytelling'', ''more_professional'', ''add_cta''} \<and>
   refine_post (replying ''never read'') ''My post'' ''shorten'' [] =
     (Inl (ValueError ''Invalid refinement type: shorten''), [])"
  using refine_post_rejects [of "''shorten''" "replying ''never read''" "''My post''" "[]"]
  by simp

text \<open>
  For comparison, a recognized kind does reach the service: one request is sent, with
  the formatted template as its user content.
\<close>

lemma refine_post_sends:
  assumes "refinement_type \<in> {''make_shorter'', ''make_longer'', ''add_storytelling'', ''more_professional'', ''add_cta''}"
  shows "\<exists>prompt. get_refinement_prompt refinement_type post = Inr (Some prompt) \<and>
           refine_post service post refinement_type sent =
             call_groq_api service prompt SYSTEM_PROMPT (7 / 10) 1500 sent \<and>
           length (snd (refine_post service post refinement_type sent)) = Suc (length sent)"
proof -
  from assms have c: "contains REFINEMENT_PROMPTS refinement_type"
    by (simp add: refinement_keys)
  from refinement_format [OF c, of post] obtain template rendered where
    "getitem REFINEMENT_PROMPTS refinement_type = Inr template"
    and "format template [(''post'', post)] = Inr rendered" and "rendered \<noteq> []"
    by blast
  with c show ?thesis
    by (simp add: get_refinement_prompt_def refine_post_def call_groq_api_def Let_def
        split: sum.splits)
qed

section \<open>Choosing the post template\<close>

text \<open>
  C4. For every tone, topic, length and post type, \<open>get_post_prompt\<close> returns a prompt,
  chosen in this order: the template of the post type when the table of post types has
  one; otherwise the template of the tone, looked up in lower case, when the table of
  tones has one; otherwise the \<open>professional\<close> template. The first is formatted with
  topic, length and tone, the other two with topic and length.
\<close>

theorem get_post_prompt_fallback:
  "(\<exists>prompt. get_post_prompt tone topic len post_type = Inr prompt) \<and>
   get_post_prompt tone topic len post_type =
     (case map_of POST_TYPE_PROMPTS post_type of
        Some template \<Rightarrow> format template [(''topic'', topic), (''length'', len), (''tone'', tone)]
      | None \<Rightarrow>
          (case map_of POST_GENERATION_PROMPTS (lower tone) of
             Some template \<Rightarrow> format template [(''topic'', topic), (''length'', len)]
           | None \<Rightarrow>
               (case map_of POST_GENERATION_PROMPTS ''professional'' of
                  Some template \<Rightarrow> format template [(''topic'', topic), (''length'', len)]
                | None \<Rightarrow> Inl (KeyError ''professional''))))"
proof (cases "contains POST_TYPE_PROMPTS post_type")
  case True
  then have ng: "post_type \<noteq> ''general''" by (auto simp: post_type_keys)
  from post_type_format [OF True, of topic len tone] obtain template rendered where
    t: "getitem POST_TYPE_PROMPTS post_type = Inr template"
    and f: "format template [(''topic'', topic), (''length'', len), (''tone'', tone)] = Inr rendered"
    by blast
  from t have "map_of POST_TYPE_PROMPTS post_type = Some template" by (simp add: getitem_map_of)
  with True ng t f show ?thesis by (simp add: get_post_prompt_def)
next
  case no_type: False
  then have nt: "map_of POST_TYPE_PROMPTS post_type = None" by (simp add: contains_map_of)
  show ?thesis
  proof (cases "contains POST_GENERATION_PROMPTS (lower tone)")
    case True
    from tone_format [OF True, of topic len] obtain template rendered where
      t: "getitem POST_GENERATION_PROMPTS (lower tone) = Inr template"
      and f: "format template [(''topic'', topic), (''length'', len)] = Inr rendered"
      by blast
    from t have "map_of POST_GENERATION_PROMPTS (lower tone) = Some template"
      by (simp add: getitem_map_of)
    with no_type nt True t f show ?thesis by (simp add: get_post_prompt_def)
  next
    case False
    then have ntone: "map_of POST_GENERATION_PROMPTS (lower tone) = None"
      by (simp add: contains_map_of)
    have "contains POST_GENERATION_PROMPTS ''professional''" by (simp add: tone_keys)
    from tone_format [OF this, of topic len] obtain template rendered where
      t: "getitem POST_GENERATION_PROMPTS ''professional'' = Inr template"
      and f: "format template [(''topic'', topic), (''length'', len)] = Inr rendered"
      by blast
    from t have "map_of POST_GENERATION_PROMPTS ''professional'' = Some template"
      by (simp add: getitem_map_of)
    with no_type nt False ntone t f show ?thesis by (simp add: get_post_prompt_def)
  qed
qed

theorem get_post_prompt_fallback_witness:
  "get_post_prompt ''Casual'' ''AI'' ''short'' ''tips'' =
     Inr (''Create a LinkedIn tips/advice post about: AI\<newline>'' @
          ''\<newline>'' @
          ''Share actionable tips or best practices.\<newline>'' @
          ''Length: short\<newline>'' @
          ''Tone: Casual\<newline>'' @
          ''\<newline>'' @
          ''Format as:\<newline>'' @
          ''- Introduction\<newline>'' @
          ''- 3-5 numbered tips\<newline>'' @
          ''- Quick summary\<newline>'' @
          ''- Engagement question\<newline>'' @
          ''\<newline>'' @
          ''NO hashtags in the main text.\<newline>'' @
          ''Write the post:'') \<and>
   get_post_prompt ''Casual'' ''AI'' ''short'' ''general'' =
     Inr (''Create a casual but professional LinkedIn post about: AI\<newline>'' @
          ''\<newline>'' @
          ''Requirements:\<newline>'' @
          ''- Length: short (Short: 2-4 lines, Medium: 5-8 lines, Long: 10-15 lines)\<newline>'' @
          ''- Tone: Friendly, conversational, relatable\<newline>'' @
          ''- Use simple language and personal anecdotes\<newline>'' @
          ''- Start with a relatable hook\<newline>'' @
          ''- Add 1-2 relevant emojis (use sparingly)\<newline>'' @
          ''- End with an engaging question\<newline>'' @
          ''- Use line breaks for readability\<newline>'' @
          ''- NO hashtags in the main text\<newline>'' @
          ''\<newline>'' @
          ''Write the post now:'') \<and>
   get_post_prompt ''witty'' ''AI'' ''short'' ''poll'' =
     Inr (''Create a professional LinkedIn post about: AI\<newline>'' @
          ''\<newline>'' @
          ''Requirements:\<newline>'' @
          ''- Length: short (Short: 2-4 lines, Medium: 5-8 lines, Long: 10-15 lines)\<newline>'' @
          ''- Tone: Professional, authoritative, and insightful\<newline>'' @
          ''- Include relevant industry terminology\<newline>'' @
          ''- Start with a strong hook\<newline>'' @
          ''- End with a thought-provoking question or call-to-action\<newline>'' @
          ''- Use line breaks for readability\<newline>'' @
          ''- NO hashtags in the main text\<newline>'' @
          ''\<newline>'' @
          ''Write the post now:'')"
proof -
  have l1: "lower ''Casual'' = ''casual''" by code_simp
  have l2: "lower ''witty'' = ''witty''" by code_simp
  show ?thesis
    using get_post_prompt_fallback [of "''Casual''" "''AI''" "''short''" "''tips''"]
      get_post_prompt_fallback [of "''Casual''" "''AI''" "''short''" "''general''"]
      get_post_prompt_fallback [of "''witty''" "''AI''" "''short''" "''poll''"]
    by (simp add: l1 l2 POST_TYPE_PROMPTS_def POST_GENERATION_PROMPTS_def format_defs)
qed

section \<open>Hashtags from a reply\<close>

text \<open>
  C6. The reply is the text \<open>_call_groq_api\<close> hands to \<open>generate_hashtags\<close>, that is
  the service's answer, stripped. When it does not begin with \<open>#\<close>,
  \<open>generate_hashtags\<close> keeps exactly its whitespace-delimited tokens that begin with
  \<open>#\<close>, in order and joined by single spaces; for the reply
  \<open>Sure! #Tech #AI rocks #Growth\<close> the result is \<open>#Tech #AI #Growth\<close>.
\<close>

theorem generate_hashtags_recovers:
  "(\<not> startswith (strip answer) ''#'' \<longrightarrow>
      fst (generate_hashtags (replying answer) topic sent) =
        Inr (join '' '' (filter (\<lambda>word. startswith word ''#'') (split_ws (strip answer))))) \<and>
   fst (generate_hashtags (replying ''Sure! #Tech #AI rocks #Growth'') topic sent) =
     Inr ''#Tech #AI #Growth''"
proof -
  obtain prompt where p: "get_hashtag_prompt topic = Inr prompt"
    using hashtag_prompt_ok by blast
  have general: "fst (generate_hashtags (replying r) topic sent) =
      (if \<not> startswith (strip r) ''#''
       then Inr (join '' '' (filter (\<lambda>word. startswith word ''#'') (split_ws (strip r))))
       else Inr (strip r))" for r
    using p by (simp add: generate_hashtags_def call_replying strip_idem)
  have "fst (generate_hashtags (replying ''Sure! #Tech #AI rocks #Growth'') topic sent) =
     Inr ''#Tech #AI #Growth''"
    unfolding general by (simp add: str_defs)
  with general show ?thesis by simp
qed

theorem generate_hashtags_recovers_witness:
  "\<not> startswith (strip ''  Here you go: #Tech, then #AI  '') ''#'' \<and>
   fst (generate_hashtags (replying ''  Here you go: #Tech, then #AI  '') ''robots'' []) =
     Inr ''#Tech, #AI''"
  using generate_hashtags_recovers [of "''  Here you go: #Tech, then #AI  ''" "''robots''" "[]"]
  by (simp add: str_defs)

section \<open>Parsing the engagement score\<close>

text \<open>
  C1, as the specification states it: a line that fails to parse leaves its own field at
  zero while the remaining well-formed lines are still parsed. In the reply below the
  \<open>Hook:\<close> line has no number; the \<open>Content:\<close> line after it is well formed, with
  score 20, and yet \<open>content\<close> is 0 in the result.
\<close>

theorem predict_engagement_stops_at_bad_line:
  "map_sum id content
     (fst (predict_engagement (replying ''Hook: abc/25\<newline>Content: 20/25'') ''My post'' [])) = Inr 0 \<and>
   score_of ''Content: 20/25'' = Inr 20"
  unfolding predict_replying by (simp add: parse_defs str_defs)

text \<open>
  C1, amended. For every model reply \<open>predict_engagement\<close> returns a result dictionary
  without raising, with the reply in \<open>details\<close>. The lines are read in order up to the
  first bad line, a scored line whose value is not an integer: that line and every
  line after it, well formed or not, are not read. Each score field holds the value of
  the last line read that starts with its prefix, \<open>prediction\<close> the label of the last
  \<open>Prediction:\<close> line read, and a field with no such line its default, zero or
  \<open>Unknown\<close>. So a reply without a \<open>Readability:\<close> line yields
  \<open>readability == 0\<close>, and when it has no bad line all its other lines are parsed.
\<close>

theorem predict_engagement_best_effort:
  "fst (predict_engagement (replying reply) post sent) = Inr (best_effort_result (strip reply)) \<and>
   ((\<forall>line\<in>set (split_on CHR ''\<newline>'' (strip reply)). \<not> startswith (strip line) ''Readability:'') \<longrightarrow>
      readability (best_effort_result (strip reply)) = 0)"
proof -
  have "last_with ''Readability:'' (lines_read (strip reply)) = None"
    if "\<forall>line\<in>set (split_on CHR ''\<newline>'' (strip reply)). \<not> startswith (strip line) ''Readability:''"
    unfolding last_with_None lines_read_def using that by (auto dest: set_takeWhileD)
  then show ?thesis
    by (simp add: predict_replying parse_lines_read best_effort_result_def score_field_def)
qed

theorem predict_engagement_best_effort_witness:
  "fst (predict_engagement
      (replying (''Hook: 20/25 - strong opening\<newline>'' @
                 ''Content: high/25 - no number\<newline>'' @
                 ''Readability: 15/20 - short lines\<newline>'' @
                 ''Prediction: Good''))
      ''My post'' []) =
   Inr \<lparr>hook = 20, content = 0, readability = 0, cta = 0, authenticity = 0, total = 0,
        prediction = ''Unknown'',
        details = ''Hook: 20/25 - strong opening\<newline>'' @
                  ''Content: high/25 - no number\<newline>'' @
                  ''Readability: 15/20 - short lines\<newline>'' @
                  ''Prediction: Good''\<rparr> \<and>
   fst (predict_engagement
      (replying (''Hook: 20/25 - strong opening\<newline>'' @
                 ''Content: 18/25 - useful\<newline>'' @
                 ''CTA: 10/15 - asks a question\<newline>'' @
                 ''Authenticity: 12/15 - personal\<newline>'' @
                 ''Total: 60/100\<newline>'' @
                 ''Prediction: Good''))
      ''My post'' []) =
   Inr \<lparr>hook = 20, content = 18, readability = 0, cta = 10, authenticity = 12, total = 60,
        prediction = ''Good'',
        details = ''Hook: 20/25 - strong opening\<newline>'' @
                  ''Content: 18/25 - useful\<newline>'' @
                  ''CTA: 10/15 - asks a question\<newline>'' @
                  ''Authenticity: 12/15 - personal\<newline>'' @
                  ''Total: 60/100\<newline>'' @
                  ''Prediction: Good''\<rparr>"
proof -
  let ?a = "''Hook: 20/25 - strong opening\<newline>'' @
            ''Content: high/25 - no number\<newline>'' @
            ''Readability: 15/20 - short lines\<newline>'' @
            ''Prediction: Good''"
  let ?b = "''Hook: 20/25 - strong opening\<newline>'' @
            ''Content: 18/25 - useful\<newline>'' @
            ''CTA: 10/15 - asks a question\<newline>'' @
            ''Authenticity: 12/15 - personal\<newline>'' @
            ''Total: 60/100\<newline>'' @
            ''Prediction: Good''"
  have sa: "strip ?a = ?a" and sb: "strip ?b = ?b"
    by (simp_all add: str_defs)
  have la: "lines_read ?a = [''Hook: 20/25 - strong opening'']"
    by (simp add: lines_read_def bad_line_def score_prefixes_def value_text_def py_int_def
        int_space_def isdigit_def digit_value_def str_defs)
  have lb: "lines_read ?b =
      [''Hook: 20/25 - strong opening'', ''Content: 18/25 - useful'',
       ''CTA: 10/15 - asks a question'', ''Authenticity: 12/15 - personal'',
       ''Total: 60/100'', ''Prediction: Good'']"
    by (simp add: lines_read_def bad_line_def score_prefixes_def value_text_def py_int_def
        int_space_def isdigit_def digit_value_def str_defs)
  have fields: "line_score ''Hook: 20/25 - strong opening'' = 20"
    "line_score ''Content: 18/25 - useful'' = 18"
    "line_score ''CTA: 10/15 - asks a question'' = 10"
    "line_score ''Authenticity: 12/15 - personal'' = 12"
    "line_score ''Total: 60/100'' = 60"
    "line_label ''Prediction: Good'' = ''Good''"
    by (simp_all add: line_score_def line_label_def value_text_def py_int_def
        int_space_def isdigit_def digit_value_def str_defs)
  have ra: "best_effort_result ?a =
      \<lparr>hook = 20, content = 0, readability = 0, cta = 0, authenticity = 0, total = 0,
       prediction = ''Unknown'', details = ?a\<rparr>"
    unfolding best_effort_result_def la
    by (simp add: score_field_def label_field_def last_with_def fields str_defs)
  have rb: "best_effort_result ?b =
      \<lparr>hook = 20, content = 18, readability = 0, cta = 10, authenticity = 12, total = 60,
       prediction = ''Good'', details = ?b\<rparr>"
    unfolding best_effort_result_def lb
    by (simp add: score_field_def label_field_def last_with_def fields str_defs)
  have nb: "\<forall>line\<in>set (split_on CHR ''\<newline>'' ?b). \<not> startswith (strip line) ''Readability:''"
    by (simp add: str_defs)
  show ?thesis
    using predict_engagement_best_effort [of ?a "''My post''" "[]", THEN conjunct1]
      predict_engagement_best_effort [of ?b "''My post''" "[]", THEN conjunct1]
      predict_engagement_best_effort [of ?b "''My post''" "[]", THEN conjunct2]
    unfolding sa sb ra rb using nb by simp
qed

end
